theory Spec2Isabelle
  imports
    Complex_Main
    "HOL-Library.Char_ord"
    "HOL-Library.List_Lexorder"
    "HOL-Library.Multiset"
    "HOL-Library.Log_Nat"
begin

section \<open>Byte strings and the library functions on them\<close>

text \<open>
  A Go \<^verbatim>\<open>string\<close> and a Go \<^verbatim>\<open>[]byte\<close> are sequences of bytes; both are modelled as
  \<^typ>\<open>string\<close>, a list of 8-bit characters. The functions of this section are the ones
  of the Go standard library that the program calls (packages \<^verbatim>\<open>strings\<close>, \<^verbatim>\<open>bytes\<close>,
  \<^verbatim>\<open>strconv\<close>); their names carry the package as a prefix. The \<^verbatim>\<open>bytes\<close> functions
  are the \<^verbatim>\<open>strings\<close> functions of the same name on \<^verbatim>\<open>[]byte\<close>.
\<close>

definition newline :: char where
  "newline = CHR 0x0A"

definition tab :: char where
  "tab = CHR 0x09"

definition isDigit :: "char \<Rightarrow> bool" where
  "isDigit c = (CHR ''0'' \<le> c \<and> c \<le> CHR ''9'')"

definition isLetter :: "char \<Rightarrow> bool" where
  "isLetter c = ((CHR ''a'' \<le> c \<and> c \<le> CHR ''z'') \<or> (CHR ''A'' \<le> c \<and> c \<le> CHR ''Z''))"

definition digitVal :: "char \<Rightarrow> nat" where
  "digitVal c = of_char c - 48"

text \<open>The value of a text of decimal digits, most significant digit first.\<close>

definition decimal :: "string \<Rightarrow> nat" where
  "decimal ds = foldl (\<lambda>n c. 10 * n + digitVal c) 0 ds"

text \<open>
  \<^verbatim>\<open>strings.Split(s, sep)\<close> and \<^verbatim>\<open>bytes.Split(s, sep)\<close> for a separator of one byte (the only
  use the program makes of them). The library loop is
  \<^verbatim>\<open>m := Index(s, sep); if m < 0 { break }; a[i] = s[:m]; s = s[m+1:]\<close>, closed by
  \<^verbatim>\<open>a[i] = s\<close>: the text before the first separator is one piece, the rest is split in
  turn, and a text without separator (the empty text too) is one piece.
\<close>

function strings_Split :: "string \<Rightarrow> char \<Rightarrow> string list" where
  "strings_Split s sep =
     (case dropWhile (\<lambda>c. c \<noteq> sep) s of
        [] \<Rightarrow> [s]
      | _ # rest \<Rightarrow> takeWhile (\<lambda>c. c \<noteq> sep) s # strings_Split rest sep)"
  by pat_completeness auto
termination
proof (relation "measure (\<lambda>(s, sep). length s)")
  show "wf (measure (\<lambda>(s, sep). length s))" by simp
next
  fix s :: string and sep :: char and x21 :: char and x22 :: string
  assume a: "dropWhile (\<lambda>c. c \<noteq> sep) s = x21 # x22"
  have "length (dropWhile (\<lambda>c. c \<noteq> sep) s) \<le> length s"
    by (rule length_dropWhile_le)
  with a show "((x22, sep), (s, sep)) \<in> measure (\<lambda>(s, sep). length s)"
    by simp
qed

declare strings_Split.simps [simp del]

text \<open>\<^verbatim>\<open>strings.Join(elems, sep)\<close> and \<^verbatim>\<open>bytes.Join(elems, sep)\<close>.\<close>

fun strings_Join :: "string list \<Rightarrow> string \<Rightarrow> string" where
  "strings_Join [] sep = []"
| "strings_Join [x] sep = x"
| "strings_Join (x # y # ys) sep = x @ sep @ strings_Join (y # ys) sep"

text \<open>
  \<^verbatim>\<open>bytes.Index(s, sep)\<close>: the position of the first occurrence of \<open>sep\<close> in \<open>s\<close>,
  \<open>None\<close> for the library's \<open>-1\<close>.
\<close>

fun bytes_Index :: "string \<Rightarrow> string \<Rightarrow> nat option" where
  "bytes_Index [] sep = (if sep = [] then Some 0 else None)"
| "bytes_Index (c # cs) sep =
     (if take (length sep) (c # cs) = sep then Some 0
      else map_option Suc (bytes_Index cs sep))"

text \<open>
  \<^verbatim>\<open>strings.TrimSpace\<close> and \<^verbatim>\<open>bytes.TrimSpace\<close> remove, at both ends, the characters for
  which \<^verbatim>\<open>unicode.IsSpace\<close> holds, the text read as UTF-8. These are the six ASCII
  characters TAB, LF, VT, FF, CR, SPACE and the code points U+0085, U+00A0, U+1680,
  U+2000 to U+200A, U+2028, U+2029, U+202F, U+205F and U+3000, listed here by their
  UTF-8 encodings. The library trims on the left first and on the right after.
\<close>

definition spaceRunes :: "string list" where
  "spaceRunes =
     [[CHR 0x09], [CHR 0x0A], [CHR 0x0B], [CHR 0x0C], [CHR 0x0D], [CHR 0x20],
      [CHR 0xC2, CHR 0x85], [CHR 0xC2, CHR 0xA0], [CHR 0xE1, CHR 0x9A, CHR 0x80],
      [CHR 0xE2, CHR 0x80, CHR 0x80], [CHR 0xE2, CHR 0x80, CHR 0x81],
      [CHR 0xE2, CHR 0x80, CHR 0x82], [CHR 0xE2, CHR 0x80, CHR 0x83],
      [CHR 0xE2, CHR 0x80, CHR 0x84], [CHR 0xE2, CHR 0x80, CHR 0x85],
      [CHR 0xE2, CHR 0x80, CHR 0x86], [CHR 0xE2, CHR 0x80, CHR 0x87],
      [CHR 0xE2, CHR 0x80, CHR 0x88], [CHR 0xE2, CHR 0x80, CHR 0x89],
      [CHR 0xE2, CHR 0x80, CHR 0x8A], [CHR 0xE2, CHR 0x80, CHR 0xA8],
      [CHR 0xE2, CHR 0x80, CHR 0xA9], [CHR 0xE2, CHR 0x80, CHR 0xAF],
      [CHR 0xE2, CHR 0x81, CHR 0x9F], [CHR 0xE3, CHR 0x80, CHR 0x80]]"

text \<open>
  The number of bytes of the rune of \<open>runes\<close> that \<open>s\<close> starts with, 0 when it starts with
  none of them.
\<close>

definition runeAt :: "string list \<Rightarrow> string \<Rightarrow> nat" where
  "runeAt runes s =
     (case filter (\<lambda>r. take (length r) s = r) runes of [] \<Rightarrow> 0 | r # _ \<Rightarrow> length r)"

function dropRunes :: "string list \<Rightarrow> string \<Rightarrow> string" where
  "dropRunes runes s =
     (if s = [] \<or> runeAt runes s = 0 then s
      else dropRunes runes (drop (runeAt runes s) s))"
  by pat_completeness auto
termination
  by (relation "measure (\<lambda>(runes, s). length s)") auto

declare dropRunes.simps [simp del]

definition strings_TrimSpace :: "string \<Rightarrow> string" where
  "strings_TrimSpace s =
     rev (dropRunes (map rev spaceRunes) (rev (dropRunes spaceRunes s)))"

text \<open>\<^verbatim>\<open>strings.TrimSuffix(s, suffix)\<close>.\<close>

definition strings_TrimSuffix :: "string \<Rightarrow> string \<Rightarrow> string" where
  "strings_TrimSuffix s suffix =
     (if length suffix \<le> length s \<and> drop (length s - length suffix) s = suffix
      then take (length s - length suffix) s else s)"

text \<open>
  \<^verbatim>\<open>strings.Contains(s, substr)\<close> for a substring of one byte.
\<close>

definition strings_Contains :: "string \<Rightarrow> char \<Rightarrow> bool" where
  "strings_Contains s c = (c \<in> set s)"

text \<open>
  \<^verbatim>\<open>strconv.ParseUint(s, 10, 64)\<close>. The library reads the bytes from the left into
  \<open>n\<close>: a byte that is no decimal digit is a syntax error (in base 10 a letter is a
  digit too large, an underscore is not allowed); before \<open>n\<close> is multiplied by 10 it
  is compared with the cutoff \<open>maxUint64 / 10 + 1\<close>, and the sum \<open>n * 10 + d\<close> is a
  range error when it wraps around or exceeds \<open>maxUint64\<close>, which in unbounded
  arithmetic is \<open>n * 10 + d > maxUint64\<close>. The empty text is a syntax error.
\<close>

datatype NumError = ErrSyntax | ErrRange

definition maxUint64 :: nat where
  "maxUint64 = 2 ^ 64 - 1"

fun ParseUint_loop :: "nat \<Rightarrow> string \<Rightarrow> NumError + nat" where
  "ParseUint_loop n [] = Inr n"
| "ParseUint_loop n (c # cs) =
     (if \<not> isDigit c then Inl ErrSyntax
      else if maxUint64 div 10 + 1 \<le> n then Inl ErrRange
      else if maxUint64 < n * 10 + digitVal c then Inl ErrRange
      else ParseUint_loop (n * 10 + digitVal c) cs)"

definition strconv_ParseUint :: "string \<Rightarrow> NumError + nat" where
  "strconv_ParseUint s = (if s = [] then Inl ErrSyntax else ParseUint_loop 0 s)"

text \<open>
  \<^verbatim>\<open>strconv.ParseInt(s, 10, 64)\<close>: an optional sign, then \<^verbatim>\<open>ParseUint\<close>; a syntax error of
  \<^verbatim>\<open>ParseUint\<close> is returned; on its range error the magnitude is \<open>maxUint64\<close>, which
  the comparison with the cutoff \<open>2^63\<close> turns into a range error again.
\<close>

definition strconv_ParseInt :: "string \<Rightarrow> NumError + int" where
  "strconv_ParseInt s0 =
     (if s0 = [] then Inl ErrSyntax
      else
        let neg = (hd s0 = CHR ''-'');
            s = (if hd s0 = CHR ''+'' \<or> hd s0 = CHR ''-'' then tl s0 else s0);
            r = strconv_ParseUint s
        in if r = Inl ErrSyntax then Inl ErrSyntax
           else
             let un = (case r of Inr u \<Rightarrow> u | Inl _ \<Rightarrow> maxUint64) in
             if \<not> neg \<and> 2 ^ 63 \<le> un then Inl ErrRange
             else if neg \<and> 2 ^ 63 < un then Inl ErrRange
             else Inr (if neg then - int un else int un))"

section \<open>Sizes: the float64 arithmetic of \<^verbatim>\<open>humanize.ParseBytes\<close>\<close>

text \<open>
  \<^verbatim>\<open>Properties.parseSize\<close> delegates to \<^verbatim>\<open>humanize.ParseBytes\<close> of the module
  \<^verbatim>\<open>github.com/dustin/go-humanize\<close> (v1.0.0 in \<^verbatim>\<open>go.mod\<close>), which computes in
  \<^verbatim>\<open>float64\<close>: the number is read by \<^verbatim>\<open>strconv.ParseFloat\<close>, multiplied by the unit as a
  \<^verbatim>\<open>float64\<close>, compared with \<^verbatim>\<open>math.MaxUint64\<close> and converted to \<^verbatim>\<open>uint64\<close>. Only
  finite values that are not negative occur on this path. Such a \<^verbatim>\<open>float64\<close> is
  modelled by the rational number it denotes, and an operation by its exact result
  rounded to the nearest \<^verbatim>\<open>float64\<close>, ties to the even significand (IEEE 754, the
  rounding of \<^verbatim>\<open>strconv.ParseFloat\<close> and of the multiplication).
\<close>

definition pow2 :: "int \<Rightarrow> rat" where
  "pow2 k = (if 0 \<le> k then 2 ^ nat k else 1 / 2 ^ nat (- k))"

text \<open>The integer \<open>e\<close> with \<open>2^e \<le> q < 2^(e+1)\<close>, for \<open>q > 0\<close>.\<close>

definition ilog2 :: "rat \<Rightarrow> int" where
  "ilog2 q = (if 1 \<le> q then bitlen \<lfloor>q\<rfloor> - 1 else - bitlen (\<lceil>1 / q\<rceil> - 1))"

definition roundHalfEven :: "rat \<Rightarrow> int" where
  "roundHalfEven x =
     (let f = \<lfloor>x\<rfloor>; r = x - of_int f
      in if r < 1 / 2 then f
         else if 1 / 2 < r then f + 1
         else if even f then f else f + 1)"

text \<open>
  The \<^verbatim>\<open>float64\<close> nearest to \<open>q \<ge> 0\<close>: a significand of 53 bits, the unit in the last
  place not below \<open>2^-1074\<close> (the subnormal numbers); \<open>None\<close> when the rounded value
  is \<open>2^1024\<close>, beyond the largest \<^verbatim>\<open>float64\<close> (the operation overflows to
  \<^verbatim>\<open>+Inf\<close>).
\<close>

definition f64 :: "rat \<Rightarrow> rat option" where
  "f64 q =
     (if q \<le> 0 then Some 0
      else
        let p = max (ilog2 q - 52) (- 1074);
            r = of_int (roundHalfEven (q / pow2 p)) * pow2 p
        in if 2 ^ 1024 \<le> r then None else Some r)"

text \<open>
  \<^verbatim>\<open>strconv.ParseFloat(num, 64)\<close> on the texts \<^verbatim>\<open>ParseBytes\<close> passes to it, which hold
  decimal digits and dots only: digits with at most one dot and at least one digit
  denote the decimal number, rounded to \<^verbatim>\<open>float64\<close>; a value that overflows is the
  library's range error, any other text its syntax error (both \<open>None\<close>).
\<close>

definition ParseFloat_decimal :: "string \<Rightarrow> rat option" where
  "ParseFloat_decimal num =
     (let ip = takeWhile isDigit num
      in case dropWhile isDigit num of
           [] \<Rightarrow> if ip = [] then None else f64 (of_nat (decimal ip))
         | c # fp \<Rightarrow>
             if c \<noteq> CHR ''.'' \<or> \<not> list_all isDigit fp \<or> (ip = [] \<and> fp = []) then None
             else f64 (of_nat (decimal (ip @ fp)) / 10 ^ length fp))"

text \<open>
  \<^verbatim>\<open>strings.ToLower\<close>, as far as it decides whether the result is a key of the size
  table, all of whose keys are ASCII: an ASCII capital becomes its small letter, and
  the two code points beyond ASCII whose lower case is an ASCII letter become that
  letter (KELVIN SIGN U+212A, bytes E2 84 AA, becomes \<open>k\<close>; U+0130, bytes C4 B0, becomes
  \<open>i\<close>). Every other byte is kept: where this differs from the library (another code
  point with a lower case, or invalid UTF-8) both results hold a byte beyond ASCII and
  equal no key. For a capital the library adds \<open>'a' - 'A' = 32\<close> to the byte, which sets
  its bit \<open>0x20\<close> (the sixth of the eight bits below, the lowest first).
\<close>

definition toLowerASCII :: "char \<Rightarrow> char" where
  "toLowerASCII c =
     (if CHR ''A'' \<le> c \<and> c \<le> CHR ''Z'' then
        (case c of Char b0 b1 b2 b3 b4 b5 b6 b7 \<Rightarrow> Char b0 b1 b2 b3 b4 True b6 b7)
      else c)"

function strings_ToLower :: "string \<Rightarrow> string" where
  "strings_ToLower s =
     (if s = [] then []
      else if take 3 s = [CHR 0xE2, CHR 0x84, CHR 0xAA] then CHR ''k'' # strings_ToLower (drop 3 s)
      else if take 2 s = [CHR 0xC4, CHR 0xB0] then CHR ''i'' # strings_ToLower (drop 2 s)
      else toLowerASCII (hd s) # strings_ToLower (tl s))"
  by pat_completeness auto
termination
  by (relation "measure length") auto

declare strings_ToLower.simps [simp del]

text \<open>
  The units of \<^verbatim>\<open>humanize\<close> (\<^verbatim>\<open>bytesSizeTable\<close>): powers of 1024 for the IEC names,
  powers of 1000 for the SI names, with and without the final \<open>b\<close>.
\<close>

definition bytesSizeTable :: "(string \<times> nat) list" where
  "bytesSizeTable =
     [(''b'', 1),
      (''kib'', 2 ^ 10), (''kb'', 10 ^ 3),
      (''mib'', 2 ^ 20), (''mb'', 10 ^ 6),
      (''gib'', 2 ^ 30), (''gb'', 10 ^ 9),
      (''tib'', 2 ^ 40), (''tb'', 10 ^ 12),
      (''pib'', 2 ^ 50), (''pb'', 10 ^ 15),
      (''eib'', 2 ^ 60), (''eb'', 10 ^ 18),
      ('''', 1),
      (''ki'', 2 ^ 10), (''k'', 10 ^ 3),
      (''mi'', 2 ^ 20), (''m'', 10 ^ 6),
      (''gi'', 2 ^ 30), (''g'', 10 ^ 9),
      (''ti'', 2 ^ 40), (''t'', 10 ^ 12),
      (''pi'', 2 ^ 50), (''p'', 10 ^ 15),
      (''ei'', 2 ^ 60), (''e'', 10 ^ 18)]"

text \<open>
  \<^verbatim>\<open>humanize.ParseBytes(s)\<close>:
  \<^verbatim>\<open>
  lastDigit := 0; hasComma := false
  for _, r := range s {
      if !(unicode.IsDigit(r) || r == '.' || r == ',') { break }
      if r == ',' { hasComma = true }
      lastDigit++
  }
  num := s[:lastDigit]
  if hasComma { num = strings.Replace(num, ",", "", -1) }
  f, err := strconv.ParseFloat(num, 64)
  if err != nil { return 0, err }
  extra := strings.ToLower(strings.TrimSpace(s[lastDigit:]))
  if m, ok := bytesSizeTable[extra]; ok {
      f *= float64(m)
      if f >= math.MaxUint64 { return 0, fmt.Errorf("too large: %v", s) }
      return uint64(f), nil
  }
  return 0, fmt.Errorf("unhandled size name: %v", extra)
  \<close>
  The result is \<open>None\<close> for each of the errors. \<^verbatim>\<open>math.MaxUint64\<close> as a \<^verbatim>\<open>float64\<close> is
  \<open>2^64\<close>, and a product that overflowed to \<^verbatim>\<open>+Inf\<close> is not below it. The numeric
  prefix ends here at the first byte that is no ASCII digit, dot or comma. In the
  library a digit beyond ASCII (\<^verbatim>\<open>unicode.IsDigit\<close>) extends the prefix, and
  \<^verbatim>\<open>ParseFloat\<close> then fails on it; here it starts the unit, which is then no key of the
  table: an error in both.
\<close>

definition isNumChar :: "char \<Rightarrow> bool" where
  "isNumChar c = (isDigit c \<or> c = CHR ''.'' \<or> c = CHR '','')"

definition humanize_ParseBytes :: "string \<Rightarrow> nat option" where
  "humanize_ParseBytes s =
     (let num = filter (\<lambda>c. c \<noteq> CHR '','') (takeWhile isNumChar s)
      in case ParseFloat_decimal num of
           None \<Rightarrow> None
         | Some f \<Rightarrow>
             (let extra = strings_ToLower (strings_TrimSpace (dropWhile isNumChar s))
              in case map_of bytesSizeTable extra of
                   None \<Rightarrow> None
                 | Some m \<Rightarrow>
                     (case f64 (f * of_nat m) of
                        None \<Rightarrow> None
                      | Some g \<Rightarrow> if 2 ^ 64 \<le> g then None else Some (nat \<lfloor>g\<rfloor>))))"

section \<open>Times: the functions of package \<^verbatim>\<open>time\<close>\<close>

text \<open>
  A \<^verbatim>\<open>time.Time\<close> without monotonic clock reading and with no nanoseconds (the only
  ones the program builds) holds the seconds since January 1 of year 1, 00:00:00 UTC,
  in its \<^verbatim>\<open>int64\<close> field \<^verbatim>\<open>ext\<close>, and a location. The zero value \<^verbatim>\<open>time.Time{}\<close> has
  \<open>ext = 0\<close> and the location UTC.
\<close>

datatype Location = UTC | Local

record time_Time =
  ext :: int
  loc :: Location

definition zeroTime :: time_Time where
  "zeroTime = \<lparr>ext = 0, loc = UTC\<rparr>"

text \<open>The value of an \<^verbatim>\<open>int64\<close> computation: the result modulo \<open>2^64\<close>, signed.\<close>

definition wrap64 :: "int \<Rightarrow> int" where
  "wrap64 x = (x + 2 ^ 63) mod 2 ^ 64 - 2 ^ 63"

text \<open>\<^verbatim>\<open>unixToInternal\<close>: the seconds from January 1 of year 1 to January 1 of 1970.\<close>

definition unixToInternal :: int where
  "unixToInternal = (1969 * 365 + 1969 div 4 - 1969 div 100 + 1969 div 400) * 86400"

text \<open>
  \<^verbatim>\<open>time.Unix(sec, 0)\<close> is \<^verbatim>\<open>Time{0, sec + unixToInternal, Local}\<close>; \<^verbatim>\<open>t.UTC()\<close> sets the
  location; \<^verbatim>\<open>t.Unix()\<close> is \<^verbatim>\<open>ext + internalToUnix\<close>.
\<close>

definition time_Unix :: "int \<Rightarrow> time_Time" where
  "time_Unix sec = \<lparr>ext = wrap64 (sec + unixToInternal), loc = Local\<rparr>"

definition Time_UTC :: "time_Time \<Rightarrow> time_Time" where
  "Time_UTC t = t\<lparr>loc := UTC\<rparr>"

definition Time_Unix :: "time_Time \<Rightarrow> int" where
  "Time_Unix t = wrap64 (ext t - unixToInternal)"

text \<open>
  \<^verbatim>\<open>time.Parse\<close> with the layout \<^verbatim>\<open>"Mon Jan _2 15:04 2006"\<close>, the only layout the program
  uses. The layout is the sequence: weekday name, space, month name, space, day
  (\<^verbatim>\<open>_2\<close>), space, hour (\<^verbatim>\<open>15\<close>), colon, minute (\<^verbatim>\<open>04\<close>), space, year (\<^verbatim>\<open>2006\<close>), and the
  library consumes the value with one function for each.
\<close>

text \<open>
  \<^verbatim>\<open>skip(value, " ")\<close>: the value must not start with another character than a space,
  and its leading spaces are removed (a run of spaces counts as one; the empty value
  passes). \<^verbatim>\<open>skip(value, ":")\<close>: the value must start with the colon.
\<close>

definition skipSpace :: "string \<Rightarrow> string option" where
  "skipSpace val =
     (if val \<noteq> [] \<and> hd val \<noteq> CHR '' '' then None
      else Some (dropWhile (\<lambda>c. c = CHR '' '') val))"

definition skipColon :: "string \<Rightarrow> string option" where
  "skipColon val = (case val of [] \<Rightarrow> None | c # r \<Rightarrow> if c = CHR '':'' then Some r else None)"

text \<open>
  \<^verbatim>\<open>match(s1, s2)\<close>: equality of two texts of the same length up to the case of ASCII
  letters. Where two bytes differ, both get the bit \<open>0x20\<close> set and must then be the
  same small letter.
\<close>

definition matchByte :: "char \<Rightarrow> char \<Rightarrow> bool" where
  "matchByte c1 c2 =
     (c1 = c2 \<or>
      (or (of_char c1 :: nat) 32 = or (of_char c2) 32 \<and>
       97 \<le> or (of_char c1 :: nat) 32 \<and> or (of_char c1 :: nat) 32 \<le> 122))"

definition match :: "string \<Rightarrow> string \<Rightarrow> bool" where
  "match s1 s2 = list_all (\<lambda>(c1, c2). matchByte c1 c2) (zip s1 s2)"

text \<open>
  \<^verbatim>\<open>lookup(tab, val)\<close>: the index of the first name of the table that the value starts
  with (up to case), and the rest of the value.
\<close>

fun lookup_from :: "nat \<Rightarrow> string list \<Rightarrow> string \<Rightarrow> (nat \<times> string) option" where
  "lookup_from i [] val = None"
| "lookup_from i (v # names) val =
     (if length v \<le> length val \<and> match (take (length v) val) v
      then Some (i, drop (length v) val)
      else lookup_from (Suc i) names val)"

definition lookup :: "string list \<Rightarrow> string \<Rightarrow> (nat \<times> string) option" where
  "lookup names val = lookup_from 0 names val"

definition shortDayNames :: "string list" where
  "shortDayNames = [''Sun'', ''Mon'', ''Tue'', ''Wed'', ''Thu'', ''Fri'', ''Sat'']"

definition shortMonthNames :: "string list" where
  "shortMonthNames =
     [''Jan'', ''Feb'', ''Mar'', ''Apr'', ''May'', ''Jun'',
      ''Jul'', ''Aug'', ''Sep'', ''Oct'', ''Nov'', ''Dec'']"

text \<open>
  \<^verbatim>\<open>getnum(s, fixed)\<close>: a number of one or two digits at the start of \<open>s\<close> (of two
  digits when \<open>fixed\<close>), and the rest.
\<close>

definition isDigitAt :: "string \<Rightarrow> nat \<Rightarrow> bool" where
  "isDigitAt s i = (i < length s \<and> isDigit (s ! i))"

definition getnum :: "string \<Rightarrow> bool \<Rightarrow> (nat \<times> string) option" where
  "getnum s fixed =
     (if \<not> isDigitAt s 0 then None
      else if \<not> isDigitAt s 1 then
        (if fixed then None else Some (digitVal (s ! 0), drop 1 s))
      else Some (digitVal (s ! 0) * 10 + digitVal (s ! 1), drop 2 s))"

definition isLeap :: "nat \<Rightarrow> bool" where
  "isLeap year = (year mod 4 = 0 \<and> (year mod 100 \<noteq> 0 \<or> year mod 400 = 0))"

definition daysBefore :: "nat list" where
  "daysBefore = [0, 31, 59, 90, 120, 151, 181, 212, 243, 273, 304, 334, 365]"

definition daysIn :: "nat \<Rightarrow> nat \<Rightarrow> nat" where
  "daysIn m year =
     (if m = 2 \<and> isLeap year then 29 else daysBefore ! m - daysBefore ! (m - 1))"

text \<open>
  \<^verbatim>\<open>time.Date(year, month, day, hour, min, 0, 0, time.UTC)\<close> for a month from 1 to 12, a
  day of that month, an hour below 24 and a minute below 60 (what \<^verbatim>\<open>time.Parse\<close> has
  checked, so that the library's normalisation changes nothing): the days of the
  years before (365 each and one more for each leap year of the Gregorian calendar),
  of the months before, and of the month, as seconds, and the time of the day.
\<close>

definition daysBeforeYear :: "nat \<Rightarrow> int" where
  "daysBeforeYear year =
     (let y = int year - 1 in 365 * y + y div 4 - y div 100 + y div 400)"

definition time_Date :: "nat \<Rightarrow> nat \<Rightarrow> nat \<Rightarrow> nat \<Rightarrow> nat \<Rightarrow> time_Time" where
  "time_Date year month day hour minute =
     (let d = daysBeforeYear year + int (daysBefore ! (month - 1))
              + (if isLeap year \<and> 3 \<le> month then 1 else 0) + int (day - 1)
      in \<lparr>ext = d * 86400 + int (hour * 3600 + minute * 60), loc = UTC\<rparr>)"

text \<open>
  The parse itself, element by element as the library's loop takes them; \<open>None\<close> is
  any of its errors. The weekday is looked up and ignored. The year is four digits.
  After the last element no text may be left, and the day must be a day of the month.
\<close>

definition parseYear :: "nat \<Rightarrow> nat \<Rightarrow> nat \<Rightarrow> nat \<Rightarrow> string \<Rightarrow> time_Time option" where
  "parseYear mi day hour minute v =
     (if length v < 4 \<or> \<not> list_all isDigit (take 4 v) then None
      else if drop 4 v \<noteq> [] then None
      else if day < 1 \<or> daysIn (mi + 1) (decimal (take 4 v)) < day then None
      else Some (time_Date (decimal (take 4 v)) (mi + 1) day hour minute))"

definition parseMinute :: "nat \<Rightarrow> nat \<Rightarrow> nat \<Rightarrow> string \<Rightarrow> time_Time option" where
  "parseMinute mi day hour v =
     Option.bind (skipColon v) (\<lambda>v1.
     Option.bind (getnum v1 True) (\<lambda>(minute, v2).
       if 60 \<le> minute then None
       else Option.bind (skipSpace v2) (parseYear mi day hour minute)))"

definition parseHour :: "nat \<Rightarrow> nat \<Rightarrow> string \<Rightarrow> time_Time option" where
  "parseHour mi day v =
     Option.bind (skipSpace v) (\<lambda>v1.
     Option.bind (getnum v1 False) (\<lambda>(hour, v2).
       if 24 \<le> hour then None else parseMinute mi day hour v2))"

definition parseDay :: "nat \<Rightarrow> string \<Rightarrow> time_Time option" where
  "parseDay mi v =
     Option.bind (skipSpace v) (\<lambda>v1.
     Option.bind (getnum (if v1 \<noteq> [] \<and> hd v1 = CHR '' '' then tl v1 else v1) False)
       (\<lambda>(day, v2). parseHour mi day v2))"

definition time_Parse :: "string \<Rightarrow> time_Time option" where
  "time_Parse val =
     Option.bind (lookup shortDayNames val) (\<lambda>(wd, v1).
     Option.bind (skipSpace v1) (\<lambda>v2.
     Option.bind (lookup shortMonthNames v2) (\<lambda>(mi, v3). parseDay mi v3)))"

section \<open>Properties (properties.go)\<close>

record Property =
  Name :: string
  Property :: string
  Value :: string
  Source :: string

text \<open>
  \<^verbatim>\<open>type Properties map[string]Property\<close>. A Go map is a finite partial function; the
  order in which \<^verbatim>\<open>range\<close> visits its entries is not specified. A function that only
  reads keys takes the map; a function that iterates takes the entries as the list
  that \<^verbatim>\<open>range\<close> produces, in any order, every key once.
\<close>

type_synonym Properties = "string \<rightharpoonup> Property"

subsection \<open>The tabular decoder\<close>

text \<open>
  \<^verbatim>\<open>parseTabular\<close>: the data is split at byte 10 into lines, and the loop appends to
  \<^verbatim>\<open>records\<close> each line split at TAB.
\<close>

definition parseTabular :: "string \<Rightarrow> string list list" where
  "parseTabular data =
     foldl (\<lambda>records line. records @ [strings_Split line tab]) []
       (strings_Split data newline)"

subsection \<open>The property-map builder\<close>

text \<open>
  \<^verbatim>\<open>newProperties\<close>: the loop over the records, \<open>r\<close> being the map built so far. A record
  of four fields with a first field that is not empty gets an empty inner map under
  its name when there is none, and is stored in the inner map under its second field.
\<close>

definition newProperties_step ::
  "(string \<rightharpoonup> Properties) \<Rightarrow> string list \<Rightarrow> (string \<rightharpoonup> Properties)" where
  "newProperties_step r record =
     (if length record = 4 \<and> record ! 0 \<noteq> [] then
        let r1 = (if r (record ! 0) = None then r(record ! 0 \<mapsto> Map.empty) else r);
            inner = (case r1 (record ! 0) of Some m \<Rightarrow> m | None \<Rightarrow> Map.empty)
        in r1(record ! 0 \<mapsto>
             inner(record ! 1 \<mapsto>
               \<lparr>Name = record ! 0, Property = record ! 1,
                Value = record ! 2, Source = record ! 3\<rparr>))
      else r)"

definition newProperties :: "string list list \<Rightarrow> (string \<rightharpoonup> Properties)" where
  "newProperties records = foldl newProperties_step Map.empty records"

subsection \<open>The codecs\<close>

text \<open>
  \<^verbatim>\<open>zfsIECSizeRegexp\<close>, the regular expression \<^verbatim>\<open>^([0-9]+)\s*([a-zA-Z])$\<close>: one or more
  digits, any number of the characters of \<^verbatim>\<open>\s\<close> (TAB, LF, FF, CR, SPACE), one ASCII
  letter, and the end of the text. The three classes are disjoint, so a text matches
  when, after its digits (at least one) and the white space after them, exactly one
  character is left and it is a letter.
\<close>

definition reSpace :: "char \<Rightarrow> bool" where
  "reSpace c = (c = CHR 0x09 \<or> c = CHR 0x0A \<or> c = CHR 0x0C \<or> c = CHR 0x0D \<or> c = CHR 0x20)"

definition zfsIECSizeRegexp_MatchString :: "string \<Rightarrow> bool" where
  "zfsIECSizeRegexp_MatchString s =
     (takeWhile isDigit s \<noteq> [] \<and>
      (case dropWhile reSpace (dropWhile isDigit s) of
         [c] \<Rightarrow> isLetter c
       | _ \<Rightarrow> False))"

definition parseSize :: "Properties \<Rightarrow> string \<Rightarrow> nat option" where
  "parseSize p sz =
     (let s = strings_TrimSpace sz
      in humanize_ParseBytes (if zfsIECSizeRegexp_MatchString s then s @ ''iB'' else s))"

definition parseBool :: "Properties \<Rightarrow> string \<Rightarrow> bool" where
  "parseBool p str =
     (if str = ''on'' \<or> str = ''On'' \<or> str = ''ON'' \<or>
         str = ''enabled'' \<or> str = ''Enabled'' \<or> str = ''ENABLED''
      then True else False)"

definition parseTime :: "Properties \<Rightarrow> string \<Rightarrow> time_Time option" where
  "parseTime p str0 =
     (let str = strings_TrimSpace str0
      in case strconv_ParseInt str of
           Inr v \<Rightarrow> Some (Time_UTC (time_Unix v))
         | Inl _ \<Rightarrow> map_option Time_UTC (time_Parse str))"

subsection \<open>The typed accessors\<close>

text \<open>
  Each accessor returns the value and the presence flag. \<^verbatim>\<open>uint64\<close> values are natural
  numbers (below \<open>2^64\<close>). \<^verbatim>\<open>Ratio\<close> returns a \<^verbatim>\<open>float64\<close> that
  \<^verbatim>\<open>strconv.ParseFloat\<close> reads; that library function is a parameter of the accessor,
  and the type of its values any type with a zero.
\<close>

definition String :: "Properties \<Rightarrow> string \<Rightarrow> string \<times> bool" where
  "String p property =
     (case p property of
        Some prop \<Rightarrow> if Value prop \<noteq> ''-'' then (Value prop, True) else ('''', False)
      | None \<Rightarrow> ('''', False))"

definition Bytes :: "Properties \<Rightarrow> string \<Rightarrow> nat \<times> bool" where
  "Bytes p property =
     (case p property of
        Some prop \<Rightarrow>
          if Value prop \<noteq> ''-'' then
            (case parseSize p (Value prop) of Some r \<Rightarrow> (r, True) | None \<Rightarrow> (0, False))
          else (0, False)
      | None \<Rightarrow> (0, False))"

definition Percent :: "Properties \<Rightarrow> string \<Rightarrow> nat \<times> bool" where
  "Percent p property =
     (case p property of
        Some prop \<Rightarrow>
          if Value prop \<noteq> ''-'' then
            (case strconv_ParseUint (strings_TrimSuffix (Value prop) ''%'') of
               Inr r \<Rightarrow> (r, True)
             | Inl _ \<Rightarrow> (0, False))
          else (0, False)
      | None \<Rightarrow> (0, False))"

definition Ratio ::
  "(string \<Rightarrow> NumError + 'f) \<Rightarrow> Properties \<Rightarrow> string \<Rightarrow> ('f :: zero) \<times> bool" where
  "Ratio strconv_ParseFloat p property =
     (case p property of
        Some prop \<Rightarrow>
          if Value prop \<noteq> ''-'' then
            (case strconv_ParseFloat (strings_TrimSuffix (Value prop) ''x'') of
               Inr r \<Rightarrow> (r, True)
             | Inl _ \<Rightarrow> (0, False))
          else (0, False)
      | None \<Rightarrow> (0, False))"

definition Bool :: "Properties \<Rightarrow> string \<Rightarrow> bool \<times> bool" where
  "Bool p property =
     (case p property of
        Some prop \<Rightarrow>
          if Value prop \<noteq> '''' \<and> Value prop \<noteq> ''-'' then (parseBool p (Value prop), True)
          else (False, False)
      | None \<Rightarrow> (False, False))"

definition Time :: "Properties \<Rightarrow> string \<Rightarrow> time_Time \<times> bool" where
  "Time p property =
     (case p property of
        Some prop \<Rightarrow>
          if Value prop \<noteq> '''' \<and> Value prop \<noteq> ''-'' then
            (case parseTime p (Value prop) of Some v \<Rightarrow> (v, True) | None \<Rightarrow> (zeroTime, False))
          else (zeroTime, False)
      | None \<Rightarrow> (zeroTime, False))"

definition Uint64 :: "Properties \<Rightarrow> string \<Rightarrow> nat \<times> bool" where
  "Uint64 p property =
     (case p property of
        Some prop \<Rightarrow>
          if Value prop \<noteq> '''' \<and> Value prop \<noteq> ''-'' then
            (case strconv_ParseUint (Value prop) of
               Inr r \<Rightarrow> (r, True)
             | Inl _ \<Rightarrow> (0, False))
          else (0, False)
      | None \<Rightarrow> (0, False))"

subsection \<open>The command-argument encoder\<close>

text \<open>
  \<^verbatim>\<open>propertyMapFlags\<close>: the first loop appends \<^verbatim>\<open>fmt.Sprintf("%s=%s", key, prop)\<close> for each
  entry of the map, in the order \<^verbatim>\<open>range\<close> visits them (the list \<open>properties\<close>);
  \<^verbatim>\<open>sort.Strings\<close> sorts the texts in increasing bytewise order (of a list of texts
  there is one sorted arrangement, so the sorting algorithm does not matter); the
  second loop appends the flag and the text for each.
\<close>

definition propertyMapFlags :: "string \<Rightarrow> (string \<times> string) list \<Rightarrow> string list" where
  "propertyMapFlags flag properties =
     (let props = foldl (\<lambda>props (key, prop). props @ [key @ ''='' @ prop]) [] properties
      in foldl (\<lambda>r prop. r @ [flag, prop]) [] (sort props))"

subsection \<open>The entity wrappers (dataset.go, pool.go)\<close>






section \<open>The manager (manager.go, zfs.go, zpool.go)\<close>

text \<open>
  The errors of the package: the sentinel values of manager.go, and the error of a
  failed command, \<^verbatim>\<open>fmt.Errorf("%w: %s", err, cleanUpStderr(stderr.Bytes()))\<close>, which
  holds the runner's error and the cleaned text of the standard error stream. An
  error built with \<^verbatim>\<open>multierr.Append\<close> or \<^verbatim>\<open>multierr.Combine\<close> is the list of its parts.
  A run-time panic of an index expression out of range is a failure of its own.
\<close>

datatype error =
    ErrZFS
  | ErrZpool
  | ErrInvalidName
  | ErrInvalidProperty
  | ErrInvalidCreateOptions
  | ErrCommand string string

datatype failure = Failed "error list" | IndexOutOfRange

definition allProperty :: string where
  "allProperty = ''all''"

definition errInvalidDatasetName :: "error list" where
  "errInvalidDatasetName = [ErrZFS, ErrInvalidName]"

definition errInvalidDatasetProperty :: "error list" where
  "errInvalidDatasetProperty = [ErrZFS, ErrInvalidProperty]"

definition errInvalidPoolName :: "error list" where
  "errInvalidPoolName = [ErrZpool, ErrInvalidName]"

definition errInvalidPoolProperty :: "error list" where
  "errInvalidPoolProperty = [ErrZpool, ErrInvalidProperty]"

text \<open>
  The injected command runner: from the program and its arguments to the bytes
  written to the standard output, the bytes written to the standard error, and the
  error it returns (\<open>None\<close> for \<^verbatim>\<open>nil\<close>). Every function that may run a command returns,
  before its result, the list of the commands it ran.
\<close>

type_synonym Runner = "string \<Rightarrow> string list \<Rightarrow> string \<times> string \<times> string option"

type_synonym call = "string \<times> string list"

definition cleanUpStderr :: "string \<Rightarrow> string" where
  "cleanUpStderr stderr0 =
     (let stderr = (case bytes_Index stderr0 ([newline] @ ''usage:'' @ [newline]) of
                      Some i \<Rightarrow> take i stderr0
                    | None \<Rightarrow> stderr0);
          lines = strings_Split (strings_TrimSpace stderr) newline;
          out = foldl (\<lambda>out line.
                         let v = strings_TrimSpace line
                         in if 0 < length v then out @ [v] else out) [] lines
      in strings_Join out '': '')"

definition zfs :: "Runner \<Rightarrow> string list \<Rightarrow> call list \<times> (error list + string list list)" where
  "zfs runner args =
     (case runner ''zfs'' args of
        (stdout, stderr, err) \<Rightarrow>
          ([(''zfs'', args)],
           case err of
             Some e \<Rightarrow> Inl [ErrZFS, ErrCommand e (cleanUpStderr stderr)]
           | None \<Rightarrow> Inr (parseTabular stdout)))"

definition zpool :: "Runner \<Rightarrow> string list \<Rightarrow> call list \<times> (error list + string list list)" where
  "zpool runner args =
     (case runner ''zpool'' args of
        (stdout, stderr, err) \<Rightarrow>
          ([(''zpool'', args)],
           case err of
             Some e \<Rightarrow> Inl [ErrZpool, ErrCommand e (cleanUpStderr stderr)]
           | None \<Rightarrow> Inr (parseTabular stdout)))"

definition validDatasetName :: "string \<Rightarrow> bool" where
  "validDatasetName name =
     (0 < length name \<and> name ! 0 \<noteq> CHR ''/'' \<and> name ! (length name - 1) \<noteq> CHR ''/'')"

definition validPoolName :: "string \<Rightarrow> bool" where
  "validPoolName name = (0 < length name \<and> \<not> strings_Contains name (CHR ''/''))"

text \<open>An index expression \<^verbatim>\<open>xs[i]\<close>, which panics out of range.\<close>

definition index :: "'a list \<Rightarrow> nat \<Rightarrow> failure + 'a" where
  "index xs i = (if i < length xs then Inr (xs ! i) else Inl IndexOutOfRange)"

definition GetDatasetProperty ::
  "Runner \<Rightarrow> string \<Rightarrow> string \<Rightarrow> call list \<times> (failure + string)" where
  "GetDatasetProperty runner name property =
     (if \<not> validDatasetName name then ([], Inl (Failed errInvalidDatasetName))
      else if property = '''' \<or> property = allProperty then
        ([], Inl (Failed errInvalidDatasetProperty))
      else
        case zfs runner [''get'', ''-Hp'', ''-o'', ''value'', property, name] of
          (calls, Inl err) \<Rightarrow> (calls, Inl (Failed err))
        | (calls, Inr records) \<Rightarrow>
            (calls, case index records 0 of
                      Inl f \<Rightarrow> Inl f
                    | Inr record \<Rightarrow> index record 0))"

definition GetPoolProperty ::
  "Runner \<Rightarrow> string \<Rightarrow> string \<Rightarrow> call list \<times> (failure + string)" where
  "GetPoolProperty runner name property =
     (if \<not> validPoolName name then ([], Inl (Failed errInvalidPoolName))
      else if property = '''' \<or> property = allProperty then
        ([], Inl (Failed errInvalidPoolProperty))
      else
        case zpool runner [''get'', ''-Hp'', ''-o'', ''value'', property, name] of
          (calls, Inl err) \<Rightarrow> (calls, Inl (Failed err))
        | (calls, Inr records) \<Rightarrow>
            (calls, case index records 0 of
                      Inl f \<Rightarrow> Inl f
                    | Inr record \<Rightarrow> index record 0))"

text \<open>
  \<^verbatim>\<open>SetDatasetProperty\<close> returns the error only (\<open>None\<close> for \<^verbatim>\<open>nil\<close>).
\<close>

definition SetDatasetProperty ::
  "Runner \<Rightarrow> string \<Rightarrow> string \<Rightarrow> string \<Rightarrow> call list \<times> error list option" where
  "SetDatasetProperty runner name property val =
     (if \<not> validDatasetName name then ([], Some errInvalidDatasetName)
      else if property = '''' \<or> property = allProperty then
        ([], Some errInvalidDatasetProperty)
      else
        case zfs runner [''set'', property @ ''='' @ val, name] of
          (calls, Inl err) \<Rightarrow> (calls, Some err)
        | (calls, Inr records) \<Rightarrow> (calls, None))"

text \<open>
  \<^verbatim>\<open>CreateDatasetOptions\<close>; the fields \<^verbatim>\<open>Name\<close> and \<^verbatim>\<open>Properties\<close> carry the type in their
  names here. The map \<^verbatim>\<open>Properties\<close> is the list of its entries in the order of
  \<^verbatim>\<open>range\<close>. \<^verbatim>\<open>CreateDataset\<close> takes a pointer to the options, \<open>None\<close> for \<^verbatim>\<open>nil\<close>.
\<close>

record CreateDatasetOptions =
  Options_Name :: string
  Options_Properties :: "(string \<times> string) list"
  CreateParents :: bool
  Unmounted :: bool
  VolumeSize :: string
  BlockSize :: string
  Sparse :: bool

definition CreateDataset ::
  "Runner \<Rightarrow> CreateDatasetOptions option \<Rightarrow> call list \<times> error list option" where
  "CreateDataset runner opts =
     (case opts of
        None \<Rightarrow> ([], Some [ErrZFS, ErrInvalidCreateOptions])
      | Some options \<Rightarrow>
          if \<not> validDatasetName (Options_Name options) then
            ([], Some [ErrZFS, ErrInvalidCreateOptions, ErrInvalidName])
          else
            let args0 = [''create''];
                args1 = (if CreateParents options then args0 @ [''-p''] else args0);
                args2 =
                  (if VolumeSize options = '''' then
                     (if Unmounted options then args1 @ [''-u''] else args1)
                   else
                     (let a = (if BlockSize options \<noteq> ''''
                               then args1 @ [''-b'', BlockSize options] else args1)
                      in if Sparse options then a @ [''-s''] else a));
                args3 = args2 @ propertyMapFlags ''-o'' (Options_Properties options);
                args4 = (if VolumeSize options \<noteq> ''''
                         then args3 @ [''-V'', VolumeSize options] else args3);
                args5 = args4 @ [Options_Name options]
            in case zfs runner args5 of
                 (calls, Inl err) \<Rightarrow> (calls, Some err)
               | (calls, Inr records) \<Rightarrow> (calls, None))"

section \<open>Facts about splitting and joining\<close>

lemma Split_Nil: "strings_Split [] sep = [[]]"
  by (simp add: strings_Split.simps)

lemma Split_none:
  "dropWhile (\<lambda>c. c \<noteq> sep) s = [] \<Longrightarrow> strings_Split s sep = [s]"
  by (subst strings_Split.simps) (simp del: dropWhile_eq_Nil_conv)

lemma Split_some:
  "dropWhile (\<lambda>c. c \<noteq> sep) s = d # rest \<Longrightarrow>
   strings_Split s sep = takeWhile (\<lambda>c. c \<noteq> sep) s # strings_Split rest sep"
  by (subst strings_Split.simps) simp

lemma Split_Cons_sep: "strings_Split (sep # cs) sep = [] # strings_Split cs sep"
  by (rule trans [OF Split_some [of sep "sep # cs" sep cs]]) simp_all

lemma Split_Cons_other:
  assumes "c \<noteq> sep"
  shows "strings_Split (c # cs) sep =
           (c # hd (strings_Split cs sep)) # tl (strings_Split cs sep)"
proof (cases "dropWhile (\<lambda>c. c \<noteq> sep) cs")
  case Nil
  with assms have "dropWhile (\<lambda>c. c \<noteq> sep) (c # cs) = []"
    by (simp del: dropWhile_eq_Nil_conv)
  then have "strings_Split (c # cs) sep = [c # cs]" by (rule Split_none)
  moreover from Nil have "strings_Split cs sep = [cs]" by (rule Split_none)
  ultimately show ?thesis by simp
next
  case (Cons d rest)
  with assms have "dropWhile (\<lambda>c. c \<noteq> sep) (c # cs) = d # rest" by simp
  then have "strings_Split (c # cs) sep =
      takeWhile (\<lambda>c. c \<noteq> sep) (c # cs) # strings_Split rest sep"
    by (rule Split_some)
  moreover from Cons have "strings_Split cs sep =
      takeWhile (\<lambda>c. c \<noteq> sep) cs # strings_Split rest sep"
    by (rule Split_some)
  ultimately show ?thesis using assms by simp
qed

lemma Split_Cons:
  "strings_Split (c # cs) sep =
     (if c = sep then [] # strings_Split cs sep
      else (c # hd (strings_Split cs sep)) # tl (strings_Split cs sep))"
  by (simp add: Split_Cons_sep Split_Cons_other)

lemma Split_not_Nil: "strings_Split s sep \<noteq> []"
  by (induction s) (simp_all add: Split_Nil Split_Cons)

lemma length_Split: "length (strings_Split s sep) = Suc (count_list s sep)"
proof (induction s)
  case Nil
  show ?case by (simp add: Split_Nil)
next
  case (Cons c cs)
  have "strings_Split cs sep \<noteq> []" by (rule Split_not_Nil)
  then have "length (tl (strings_Split cs sep)) = count_list cs sep"
    using Cons.IH by (cases "strings_Split cs sep") simp_all
  with Cons.IH show ?case by (simp add: Split_Cons)
qed

lemma Split_no_sep: "f \<in> set (strings_Split s sep) \<Longrightarrow> sep \<notin> set f"
proof (induction s arbitrary: f)
  case Nil
  then show ?case by (simp add: Split_Nil)
next
  case (Cons c cs)
  obtain g gs where g: "strings_Split cs sep = g # gs"
    using Split_not_Nil [of cs sep] by (cases "strings_Split cs sep") auto
  show ?case
  proof (cases "c = sep")
    case True
    with Cons show ?thesis by (auto simp: Split_Cons)
  next
    case False
    with Cons.prems g have "f = c # g \<or> f \<in> set gs" by (auto simp: Split_Cons)
    moreover have "sep \<notin> set g" using Cons.IH [of g] g by simp
    moreover have "f \<in> set gs \<Longrightarrow> sep \<notin> set f" using Cons.IH [of f] g by simp
    ultimately show ?thesis using False by auto
  qed
qed

lemma Split_subset: "f \<in> set (strings_Split s sep) \<Longrightarrow> set f \<subseteq> set s"
proof (induction s arbitrary: f)
  case Nil
  then show ?case by (simp add: Split_Nil)
next
  case (Cons c cs)
  obtain g gs where g: "strings_Split cs sep = g # gs"
    using Split_not_Nil [of cs sep] by (cases "strings_Split cs sep") auto
  show ?case
  proof (cases "c = sep")
    case True
    with Cons show ?thesis by (auto simp: Split_Cons)
  next
    case False
    with Cons.prems g have "f = c # g \<or> f \<in> set gs" by (auto simp: Split_Cons)
    moreover have "set g \<subseteq> set cs" using Cons.IH [of g] g by simp
    moreover have "f \<in> set gs \<Longrightarrow> set f \<subseteq> set cs" using Cons.IH [of f] g by simp
    ultimately show ?thesis by auto
  qed
qed

lemma Join_Cons: "ys \<noteq> [] \<Longrightarrow> strings_Join (x # ys) sep = x @ sep @ strings_Join ys sep"
  by (cases ys) simp_all

lemma Join_Split: "strings_Join (strings_Split s sep) [sep] = s"
proof (induction s)
  case Nil
  show ?case by (simp add: Split_Nil)
next
  case (Cons c cs)
  obtain g gs where g: "strings_Split cs sep = g # gs"
    using Split_not_Nil [of cs sep] by (cases "strings_Split cs sep") auto
  show ?case
  proof (cases "c = sep")
    case True
    with Cons.IH show ?thesis
      by (simp add: Split_Cons Join_Cons Split_not_Nil)
  next
    case False
    have "strings_Join ((c # g) # gs) [sep] = c # strings_Join (g # gs) [sep]"
      by (cases gs) simp_all
    with False Cons.IH g show ?thesis by (simp add: Split_Cons)
  qed
qed

lemma Split_snoc_sep: "strings_Split (s @ [sep]) sep = strings_Split s sep @ [[]]"
proof (induction s)
  case Nil
  show ?case by (simp add: Split_Nil Split_Cons)
next
  case (Cons c cs)
  have ne: "strings_Split cs sep \<noteq> []" by (rule Split_not_Nil)
  show ?case
  proof (cases "c = sep")
    case True
    with Cons.IH show ?thesis by (simp add: Split_Cons)
  next
    case False
    with Cons.IH ne show ?thesis by (simp add: Split_Cons)
  qed
qed

lemma foldl_snoc_map: "foldl (\<lambda>acc x. acc @ [f x]) acc0 xs = acc0 @ map f xs"
  by (induction xs arbitrary: acc0) simp_all

lemma parseTabular_map:
  "parseTabular data = map (\<lambda>line. strings_Split line tab) (strings_Split data newline)"
  by (simp add: parseTabular_def foldl_snoc_map)

lemma parseTabular_not_Nil: "parseTabular data \<noteq> []"
  by (simp add: parseTabular_map Split_not_Nil)

lemma parseTabular_record_not_Nil: "r \<in> set (parseTabular data) \<Longrightarrow> r \<noteq> []"
  by (auto simp: parseTabular_map Split_not_Nil)

lemma parseTabular_Nil: "parseTabular [] = [[[]]]"
  by (simp add: parseTabular_map Split_Nil)

section \<open>The tabular decoder: records and fields\<close>

lemma Join_parseTabular:
  "strings_Join (map (\<lambda>r. strings_Join r [tab]) (parseTabular data)) [newline] = data"
proof -
  have "map (\<lambda>r. strings_Join r [tab]) (parseTabular data) = strings_Split data newline"
    by (simp add: parseTabular_map o_def Join_Split)
  then show ?thesis by (simp add: Join_Split)
qed

lemma parseTabular_field_clean:
  assumes "r \<in> set (parseTabular data)" and "f \<in> set r"
  shows "tab \<notin> set f \<and> newline \<notin> set f"
proof -
  from assms(1) obtain line where line: "line \<in> set (strings_Split data newline)"
    and r: "r = strings_Split line tab"
    by (auto simp: parseTabular_map)
  from assms(2) r have "tab \<notin> set f" and "set f \<subseteq> set line"
    by (auto dest: Split_no_sep Split_subset)
  moreover from line have "newline \<notin> set line" by (rule Split_no_sep)
  ultimately show ?thesis by auto
qed

lemma parseTabular_snoc_newline:
  "parseTabular (data @ [newline]) = parseTabular data @ [[[]]]"
  by (simp add: parseTabular_map Split_snoc_sep Split_Nil)

text \<open>
  C9, as the code has it. For every input the decoder returns one record for each
  line, the lines being the pieces of the input between newline bytes (one more than
  there are newline bytes), and each record is its line split at the TAB bytes:
  joining the fields of each record with TAB and the records with newline gives the
  input back, and no field holds a TAB or a newline. There is no error: the function
  is total. An input that ends with a newline has a last line that is empty, and the
  record of that line is the list of one empty field: a record of length 1, not of
  length 0.
\<close>

theorem parseTabular_one_record_per_line:
  "length (parseTabular data) = Suc (count_list data newline)
   \<and> parseTabular data = map (\<lambda>line. strings_Split line tab) (strings_Split data newline)
   \<and> strings_Join (map (\<lambda>r. strings_Join r [tab]) (parseTabular data)) [newline] = data
   \<and> (\<forall>r \<in> set (parseTabular data). \<forall>f \<in> set r. tab \<notin> set f \<and> newline \<notin> set f)
   \<and> parseTabular (data @ [newline]) = parseTabular data @ [['''']]
   \<and> length (last (parseTabular (data @ [newline]))) = 1"
proof -
  have "length (parseTabular data) = Suc (count_list data newline)"
    by (simp add: parseTabular_map length_Split)
  moreover have "\<forall>r \<in> set (parseTabular data). \<forall>f \<in> set r. tab \<notin> set f \<and> newline \<notin> set f"
    using parseTabular_field_clean by blast
  moreover have "length (last (parseTabular (data @ [newline]))) = 1"
    by (simp add: parseTabular_snoc_newline)
  ultimately show ?thesis
    using parseTabular_map [of data] Join_parseTabular [of data]
      parseTabular_snoc_newline [of data]
    by simp
qed

theorem parseTabular_one_record_per_line_witness:
  "parseTabular (''tank'' @ [tab] @ ''used'' @ [newline]) = [[''tank'', ''used''], ['''']]
   \<and> length (parseTabular (''tank'' @ [tab] @ ''used'' @ [newline])) = 2
   \<and> length (last (parseTabular (''tank'' @ [tab] @ ''used'' @ [newline]))) = 1"
proof -
  have a: "parseTabular (''tank'' @ [tab] @ ''used'') = [[''tank'', ''used'']]"
    by (simp add: parseTabular_map Split_Cons Split_Nil tab_def newline_def)
  show ?thesis
    using parseTabular_one_record_per_line [of "''tank'' @ [tab] @ ''used''"] a
    by simp
qed

text \<open>
  The claim as stated fails: the trailing record of an input that ends with a newline
  is not of length zero. It holds one field, the empty text.
\<close>

theorem parseTabular_trailing_record_counterexample:
  "parseTabular (''tank'' @ [newline]) = [[''tank''], ['''']]
   \<and> length (last (parseTabular (''tank'' @ [newline]))) = 1"
  by (simp add: parseTabular_map Split_Cons Split_Nil tab_def newline_def)

text \<open>
  C10. For every input, the empty one too, \<^verbatim>\<open>parseTabular\<close> returns at least one
  record and every record has at least one field, so that the index expression
  \<^verbatim>\<open>records[0][0]\<close> is in range. \<^verbatim>\<open>GetDatasetProperty\<close> and \<^verbatim>\<open>GetPoolProperty\<close>, which
  evaluate it after a successful command, never panic, whatever the runner does; and
  when the command succeeds with an empty standard output they return the empty
  text.
\<close>

theorem records_first_field_in_range:
  "parseTabular data \<noteq> []
   \<and> (\<forall>r \<in> set (parseTabular data). r \<noteq> [])
   \<and> (\<exists>record field. index (parseTabular data) 0 = Inr record \<and> index record 0 = Inr field)
   \<and> snd (GetDatasetProperty runner name property) \<noteq> Inl IndexOutOfRange
   \<and> snd (GetPoolProperty runner name property) \<noteq> Inl IndexOutOfRange
   \<and> (validDatasetName name \<and> property \<noteq> '''' \<and> property \<noteq> allProperty
        \<and> runner ''zfs'' [''get'', ''-Hp'', ''-o'', ''value'', property, name]
            = ('''', stderr, None)
       \<longrightarrow> GetDatasetProperty runner name property
            = ([(''zfs'', [''get'', ''-Hp'', ''-o'', ''value'', property, name])], Inr ''''))
   \<and> (validPoolName name \<and> property \<noteq> '''' \<and> property \<noteq> allProperty
        \<and> runner ''zpool'' [''get'', ''-Hp'', ''-o'', ''value'', property, name]
            = ('''', stderr, None)
       \<longrightarrow> GetPoolProperty runner name property
            = ([(''zpool'', [''get'', ''-Hp'', ''-o'', ''value'', property, name])], Inr ''''))"
proof -
  have idx: "\<exists>record field. index (parseTabular d) 0 = Inr record \<and> index record 0 = Inr field"
    for d
  proof -
    obtain r rs where r: "parseTabular d = r # rs"
      using parseTabular_not_Nil [of d] by (cases "parseTabular d") auto
    then have "r \<noteq> []" using parseTabular_record_not_Nil [of r d] by simp
    with r show ?thesis by (simp add: index_def)
  qed
  have ds: "snd (GetDatasetProperty runner name property) \<noteq> Inl IndexOutOfRange"
  proof -
    obtain out e err where run:
      "runner ''zfs'' [''get'', ''-Hp'', ''-o'', ''value'', property, name] = (out, e, err)"
      by (cases "runner ''zfs'' [''get'', ''-Hp'', ''-o'', ''value'', property, name]") auto
    obtain r f where "index (parseTabular out) 0 = Inr r" and "index r 0 = Inr f"
      using idx [of out] by blast
    with run show ?thesis
      by (simp add: GetDatasetProperty_def zfs_def split: option.splits)
  qed
  have pl: "snd (GetPoolProperty runner name property) \<noteq> Inl IndexOutOfRange"
  proof -
    obtain out e err where run:
      "runner ''zpool'' [''get'', ''-Hp'', ''-o'', ''value'', property, name] = (out, e, err)"
      by (cases "runner ''zpool'' [''get'', ''-Hp'', ''-o'', ''value'', property, name]") auto
    obtain r f where "index (parseTabular out) 0 = Inr r" and "index r 0 = Inr f"
      using idx [of out] by blast
    with run show ?thesis
      by (simp add: GetPoolProperty_def zpool_def split: option.splits)
  qed
  have empty: "index (parseTabular []) 0 = Inr [[]]" "index [[]::string] 0 = Inr []"
    by (simp_all add: parseTabular_Nil index_def)
  have de: "validDatasetName name \<and> property \<noteq> '''' \<and> property \<noteq> allProperty
        \<and> runner ''zfs'' [''get'', ''-Hp'', ''-o'', ''value'', property, name]
            = ('''', stderr, None)
       \<longrightarrow> GetDatasetProperty runner name property
            = ([(''zfs'', [''get'', ''-Hp'', ''-o'', ''value'', property, name])], Inr '''')"
    using empty by (simp add: GetDatasetProperty_def zfs_def)
  have pe: "validPoolName name \<and> property \<noteq> '''' \<and> property \<noteq> allProperty
        \<and> runner ''zpool'' [''get'', ''-Hp'', ''-o'', ''value'', property, name]
            = ('''', stderr, None)
       \<longrightarrow> GetPoolProperty runner name property
            = ([(''zpool'', [''get'', ''-Hp'', ''-o'', ''value'', property, name])], Inr '''')"
    using empty by (simp add: GetPoolProperty_def zpool_def)
  show ?thesis
    using parseTabular_not_Nil [of data] parseTabular_record_not_Nil [of _ data]
      idx [of data] ds pl de pe
    by blast
qed

theorem records_first_field_in_range_witness:
  "parseTabular '''' = [['''']]
   \<and> GetDatasetProperty (\<lambda>prog args. ('''', '''', None)) ''tank/data'' ''used''
       = ([(''zfs'', [''get'', ''-Hp'', ''-o'', ''value'', ''used'', ''tank/data''])], Inr '''')
   \<and> GetPoolProperty (\<lambda>prog args. ('''', '''', None)) ''tank'' ''size''
       = ([(''zpool'', [''get'', ''-Hp'', ''-o'', ''value'', ''size'', ''tank''])], Inr '''')"
proof -
  have v: "validDatasetName ''tank/data''" "validPoolName ''tank''"
    by (simp_all add: validDatasetName_def validPoolName_def strings_Contains_def)
  have p: "''used'' \<noteq> allProperty" "''size'' \<noteq> allProperty"
    by (simp_all add: allProperty_def)
  show ?thesis
    using records_first_field_in_range
      [of "''''" "\<lambda>prog args. ('''', '''', None)" "''tank/data''" "''used''" "''''"]
      records_first_field_in_range
      [of "''''" "\<lambda>prog args. ('''', '''', None)" "''tank''" "''size''" "''''"]
      v p parseTabular_Nil
    by simp
qed

section \<open>The typed accessors: absence and booleans\<close>

text \<open>
  C3. For each of the seven accessors and every property name: when the key is not in
  the store, or the raw value of its entry is the sentinel \<open>-\<close>, the accessor returns
  the presence flag false and the zero value of its type: the empty text, false, 0,
  0.0 (the zero of the type of \<^verbatim>\<open>float64\<close> values, whatever \<^verbatim>\<open>strconv.ParseFloat\<close>
  does), and the zero time.
\<close>

theorem accessors_absent:
  assumes "p property = None \<or> (\<exists>prop. p property = Some prop \<and> Value prop = ''-'')"
  shows "String p property = ('''', False)
       \<and> Bool p property = (False, False)
       \<and> Bytes p property = (0, False)
       \<and> Percent p property = (0, False)
       \<and> Ratio strconv_ParseFloat p property = (0, False)
       \<and> Time p property = (\<lparr>ext = 0, loc = UTC\<rparr>, False)
       \<and> Uint64 p property = (0, False)"
  using assms
  by (auto simp: String_def Bool_def Bytes_def Percent_def Ratio_def Time_def Uint64_def
      zeroTime_def)

theorem accessors_absent_witness:
  "String (Map.empty(''quota'' \<mapsto> \<lparr>Name = ''tank'', Property = ''quota'', Value = ''-'', Source = ''-''\<rparr>)) ''quota''
     = ('''', False)
   \<and> Bytes (Map.empty(''quota'' \<mapsto> \<lparr>Name = ''tank'', Property = ''quota'', Value = ''-'', Source = ''-''\<rparr>)) ''quota''
     = (0, False)
   \<and> Ratio (\<lambda>s. Inr (1 :: real))
       (Map.empty(''quota'' \<mapsto> \<lparr>Name = ''tank'', Property = ''quota'', Value = ''-'', Source = ''-''\<rparr>)) ''quota''
     = (0, False)
   \<and> Time (Map.empty(''quota'' \<mapsto> \<lparr>Name = ''tank'', Property = ''quota'', Value = ''-'', Source = ''-''\<rparr>)) ''used''
     = (\<lparr>ext = 0, loc = UTC\<rparr>, False)
   \<and> Uint64 Map.empty ''used'' = (0, False)"
  using
    accessors_absent [of
      "Map.empty(''quota'' \<mapsto> \<lparr>Name = ''tank'', Property = ''quota'', Value = ''-'', Source = ''-''\<rparr>)"
      "''quota''" "\<lambda>s. Inr (1 :: real)"]
    accessors_absent [of
      "Map.empty(''quota'' \<mapsto> \<lparr>Name = ''tank'', Property = ''quota'', Value = ''-'', Source = ''-''\<rparr>)"
      "''used''" "\<lambda>s. Inr (1 :: real)"]
    accessors_absent [of Map.empty "''used''" "\<lambda>s. Inr (1 :: real)"]
  by simp

text \<open>
  C4, as the code has it. \<^verbatim>\<open>Bool\<close> returns the presence flag true exactly when the key
  is in the store and the raw value is neither empty nor \<open>-\<close>. When present, the
  boolean is true exactly when the raw value is one of the six spellings \<open>on\<close>, \<open>On\<close>,
  \<open>ON\<close>, \<open>enabled\<close>, \<open>Enabled\<close>, \<open>ENABLED\<close>, and false for every other text; there is no
  failure once the value is present.
\<close>

theorem Bool_six_spellings:
  "snd (Bool p property)
     = (\<exists>prop. p property = Some prop \<and> Value prop \<noteq> '''' \<and> Value prop \<noteq> ''-'')
   \<and> (p property = Some prop \<and> Value prop \<noteq> '''' \<and> Value prop \<noteq> ''-''
       \<longrightarrow> Bool p property
           = (Value prop \<in> {''on'', ''On'', ''ON'', ''enabled'', ''Enabled'', ''ENABLED''}, True))"
  by (auto simp: Bool_def parseBool_def split: option.splits)

theorem Bool_six_spellings_witness:
  "Bool (Map.empty(''atime'' \<mapsto> \<lparr>Name = ''tank'', Property = ''atime'', Value = ''Enabled'', Source = ''-''\<rparr>)) ''atime''
     = (True, True)
   \<and> Bool (Map.empty(''atime'' \<mapsto> \<lparr>Name = ''tank'', Property = ''atime'', Value = ''off'', Source = ''-''\<rparr>)) ''atime''
     = (False, True)"
  using
    Bool_six_spellings [of
      "Map.empty(''atime'' \<mapsto> \<lparr>Name = ''tank'', Property = ''atime'', Value = ''Enabled'', Source = ''-''\<rparr>)"
      "''atime''" "\<lparr>Name = ''tank'', Property = ''atime'', Value = ''Enabled'', Source = ''-''\<rparr>"]
    Bool_six_spellings [of
      "Map.empty(''atime'' \<mapsto> \<lparr>Name = ''tank'', Property = ''atime'', Value = ''off'', Source = ''-''\<rparr>)"
      "''atime''" "\<lparr>Name = ''tank'', Property = ''atime'', Value = ''off'', Source = ''-''\<rparr>"]
  by simp

text \<open>
  The claim as stated fails: \<open>oN\<close> equals \<open>on\<close> when the case of the letters is ignored,
  and \<^verbatim>\<open>Bool\<close> decodes it to false.
\<close>

theorem Bool_case_insensitive_counterexample:
  "Bool (Map.empty(''atime'' \<mapsto> \<lparr>Name = ''tank'', Property = ''atime'', Value = ''oN'', Source = ''-''\<rparr>)) ''atime''
     = (False, True)
   \<and> map toLowerASCII ''oN'' = ''on''"
  by (simp add: Bool_def parseBool_def toLowerASCII_def)

section \<open>The property-map builder\<close>

lemma step_wrong_length: "length r \<noteq> 4 \<Longrightarrow> newProperties_step m r = m"
  by (simp add: newProperties_step_def)

lemma step_no_name: "r ! 0 = [] \<Longrightarrow> newProperties_step m r = m"
  by (simp add: newProperties_step_def)

lemma step_dom:
  "length r = 4 \<Longrightarrow> r ! 0 \<noteq> [] \<Longrightarrow> dom (newProperties_step m r) = insert (r ! 0) (dom m)"
  by (auto simp: newProperties_step_def Let_def split: if_splits)

lemma step_lookup:
  assumes "length r = 4" and "r ! 0 \<noteq> []"
  shows "(case newProperties_step m r e of None \<Rightarrow> None | Some ps \<Rightarrow> ps p)
     = (if e = r ! 0 \<and> p = r ! 1
        then Some \<lparr>Name = r ! 0, Property = r ! 1, Value = r ! 2, Source = r ! 3\<rparr>
        else (case m e of None \<Rightarrow> None | Some ps \<Rightarrow> ps p))"
  using assms by (auto simp: newProperties_step_def Let_def split: option.splits)

lemma foldl_step_filter:
  "foldl newProperties_step m (filter (\<lambda>r. length r = 4 \<and> r ! 0 \<noteq> []) records)
     = foldl newProperties_step m records"
  by (induction records arbitrary: m) (auto simp: step_wrong_length step_no_name)

lemma newProperties_snoc:
  "newProperties (records @ [r]) = newProperties_step (newProperties records) r"
  by (simp add: newProperties_def)

lemma newProperties_dom:
  "dom (newProperties records) = {r ! 0 | r. r \<in> set records \<and> length r = 4 \<and> r ! 0 \<noteq> []}"
proof (induction records rule: rev_induct)
  case Nil
  show ?case by (simp add: newProperties_def)
next
  case (snoc r records)
  consider (ok) "length r = 4" "r ! 0 \<noteq> []" | (len) "length r \<noteq> 4" | (name) "r ! 0 = []"
    by auto
  then show ?case
  proof cases
    case ok
    then show ?thesis using snoc by (auto simp: newProperties_snoc step_dom)
  next
    case len
    then show ?thesis using snoc by (auto simp: newProperties_snoc step_wrong_length)
  next
    case name
    then show ?thesis using snoc by (auto simp: newProperties_snoc step_no_name)
  qed
qed

lemma newProperties_lookup:
  "(case newProperties records entity of None \<Rightarrow> None | Some props \<Rightarrow> props property)
     = map_option (\<lambda>r. \<lparr>Name = r ! 0, Property = r ! 1, Value = r ! 2, Source = r ! 3\<rparr>)
         (find (\<lambda>r. r ! 0 = entity \<and> r ! 1 = property)
            (rev (filter (\<lambda>r. length r = 4 \<and> r ! 0 \<noteq> []) records)))"
proof (induction records rule: rev_induct)
  case Nil
  show ?case by (simp add: newProperties_def)
next
  case (snoc r records)
  consider (ok) "length r = 4" "r ! 0 \<noteq> []" | (len) "length r \<noteq> 4" | (name) "r ! 0 = []"
    by auto
  then show ?case
  proof cases
    case ok
    then show ?thesis using snoc by (simp add: newProperties_snoc step_lookup)
  next
    case len
    then show ?thesis using snoc by (simp add: newProperties_snoc step_wrong_length)
  next
    case name
    then show ?thesis using snoc by (simp add: newProperties_snoc step_no_name)
  qed
qed

text \<open>
  C6. For every sequence of records the builder accepts a record exactly when it has
  four fields and a first field (the entity name) that is not empty: the result is
  the result for the accepted records alone, every other record is dropped without
  an error. The accepted records are grouped by entity name (the entities of the
  result are the first fields of the accepted records) into maps keyed by property
  name, and the Property stored for an entity and a property name is built from the
  last accepted record of the input with that first and second field: the later
  record wins.
\<close>

theorem newProperties_last_write_wins:
  "newProperties records
     = newProperties (filter (\<lambda>r. length r = 4 \<and> r ! 0 \<noteq> '''') records)
   \<and> dom (newProperties records)
     = {r ! 0 | r. r \<in> set records \<and> length r = 4 \<and> r ! 0 \<noteq> ''''}
   \<and> (case newProperties records entity of None \<Rightarrow> None | Some props \<Rightarrow> props property)
     = map_option (\<lambda>r. \<lparr>Name = r ! 0, Property = r ! 1, Value = r ! 2, Source = r ! 3\<rparr>)
         (find (\<lambda>r. r ! 0 = entity \<and> r ! 1 = property)
            (rev (filter (\<lambda>r. length r = 4 \<and> r ! 0 \<noteq> '''') records)))"
  using foldl_step_filter [where m = Map.empty and records = records]
    newProperties_dom [where records = records]
    newProperties_lookup [where records = records and entity = entity and property = property]
  by (simp add: newProperties_def)

theorem newProperties_last_write_wins_witness:
  "(case newProperties
      [[''tank'', ''quota'', ''1G'', ''local''], [''''],
       [''tank'', ''quota'', ''2G'', ''local''], [''tank'', ''quota'', ''3G'']] ''tank'' of
      None \<Rightarrow> None | Some props \<Rightarrow> props ''quota'')
     = Some \<lparr>Name = ''tank'', Property = ''quota'', Value = ''2G'', Source = ''local''\<rparr>"
proof -
  let ?records = "[[''tank'', ''quota'', ''1G'', ''local''], [''''],
        [''tank'', ''quota'', ''2G'', ''local''], [''tank'', ''quota'', ''3G'']]"
  have "(case newProperties ?records ''tank'' of None \<Rightarrow> None | Some props \<Rightarrow> props ''quota'')
     = map_option (\<lambda>r. \<lparr>Name = r ! 0, Property = r ! 1, Value = r ! 2, Source = r ! 3\<rparr>)
         (find (\<lambda>r. r ! 0 = ''tank'' \<and> r ! 1 = ''quota'')
            (rev (filter (\<lambda>r. length r = 4 \<and> r ! 0 \<noteq> '''') ?records)))"
    using newProperties_last_write_wins [where records = ?records
        and entity = "''tank''" and property = "''quota''"]
    by (rule conjunct2 [THEN conjunct2])
  then show ?thesis by simp
qed

section \<open>The entity wrappers\<close>







section \<open>The command-argument encoder\<close>

lemma kv_fold:
  "foldl (\<lambda>props (key, prop). props @ [key @ ''='' @ prop]) acc kvs
     = acc @ map (\<lambda>(key, prop). key @ ''='' @ prop) kvs"
  by (induction kvs arbitrary: acc) auto

lemma flag_fold:
  "foldl (\<lambda>r prop. r @ [flag, prop]) acc xs = acc @ concat (map (\<lambda>prop. [flag, prop]) xs)"
  by (induction xs arbitrary: acc) simp_all

lemma propertyMapFlags_eq:
  "propertyMapFlags flag kvs
     = concat (map (\<lambda>prop. [flag, prop]) (sort (map (\<lambda>(key, prop). key @ ''='' @ prop) kvs)))"
  unfolding propertyMapFlags_def Let_def kv_fold flag_fold by simp

lemma same_map_same_mset:
  assumes "distinct (map fst xs)" and "distinct (map fst ys)" and "map_of xs = map_of ys"
  shows "mset xs = mset ys"
proof -
  have "set xs = set ys"
  proof (rule set_eqI)
    fix kv :: "'a \<times> 'b"
    obtain k v where kv: "kv = (k, v)" by (cases kv)
    have "(k, v) \<in> set xs \<longleftrightarrow> map_of xs k = Some v" using assms(1) by simp
    also have "\<dots> \<longleftrightarrow> map_of ys k = Some v" using assms(3) by simp
    also have "\<dots> \<longleftrightarrow> (k, v) \<in> set ys" using assms(2) by simp
    finally show "kv \<in> set xs \<longleftrightarrow> kv \<in> set ys" using kv by simp
  qed
  moreover have "distinct xs" "distinct ys"
    using assms(1,2) by (simp_all add: distinct_map)
  ultimately show ?thesis by (simp add: set_eq_iff_mset_eq_distinct)
qed

lemma sort_cong_mset:
  fixes xs ys :: "'a :: linorder list"
  assumes "mset xs = mset ys"
  shows "sort xs = sort ys"
  by (rule properties_for_sort) (simp_all add: assms)

lemma concat_pairs_length: "length (concat (map (\<lambda>prop. [flag, prop]) xs)) = 2 * length xs"
  by (induction xs) simp_all

lemma concat_pairs_nth:
  "i < length xs \<Longrightarrow>
   concat (map (\<lambda>prop. [flag, prop]) xs) ! (2 * i) = flag \<and>
   concat (map (\<lambda>prop. [flag, prop]) xs) ! (2 * i + 1) = xs ! i"
proof (induction xs arbitrary: i)
  case Nil
  then show ?case by simp
next
  case (Cons x xs)
  show ?case
  proof (cases i)
    case 0
    then show ?thesis by simp
  next
    case (Suc j)
    with Cons.prems have "j < length xs" by simp
    from Cons.IH [OF this] Suc show ?thesis by simp
  qed
qed

text \<open>
  C5. For every flag and every map of property names to values, the encoder returns
  the flat list of the pairs \<open>[flag, name=value]\<close>, one pair for each entry of the map,
  the texts \<open>name=value\<close> in increasing bytewise order: the list has twice as many
  elements as the map has entries, the flag stands at every even position and the
  sorted texts at the odd positions. The result is the same for every order in which
  the entries of one map are visited. The empty map gives the empty list, without
  the flag. The map \<open>{quota: 10G, feature@async_destroy: disabled}\<close> with the flag \<open>-o\<close>
  gives \<open>-o feature@async_destroy=disabled -o quota=10G\<close> in both orders.
\<close>

theorem propertyMapFlags_sorted_pairs:
  "(\<exists>args. sorted args
        \<and> mset args = mset (map (\<lambda>(key, prop). key @ ''='' @ prop) properties)
        \<and> propertyMapFlags flag properties = concat (map (\<lambda>arg. [flag, arg]) args)
        \<and> length (propertyMapFlags flag properties) = 2 * length properties
        \<and> (\<forall>i < length properties.
              propertyMapFlags flag properties ! (2 * i) = flag
              \<and> propertyMapFlags flag properties ! (2 * i + 1) = args ! i))
   \<and> (distinct (map fst properties) \<and> distinct (map fst properties')
        \<and> map_of properties = map_of properties'
       \<longrightarrow> propertyMapFlags flag properties = propertyMapFlags flag properties')
   \<and> propertyMapFlags flag [] = []
   \<and> propertyMapFlags ''-o'' [(''quota'', ''10G''), (''feature@async_destroy'', ''disabled'')]
       = [''-o'', ''feature@async_destroy=disabled'', ''-o'', ''quota=10G'']
   \<and> propertyMapFlags ''-o'' [(''feature@async_destroy'', ''disabled''), (''quota'', ''10G'')]
       = [''-o'', ''feature@async_destroy=disabled'', ''-o'', ''quota=10G'']"
proof -
  let ?kv = "\<lambda>(key, prop). key @ ''='' @ prop"
  let ?args = "sort (map ?kv properties)"
  have len: "length ?args = length properties" by simp
  have a: "sorted ?args" and a': "mset ?args = mset (map ?kv properties)" by simp_all
  have b: "propertyMapFlags flag properties = concat (map (\<lambda>arg. [flag, arg]) ?args)"
    by (rule propertyMapFlags_eq)
  have c: "length (propertyMapFlags flag properties) = 2 * length properties"
    unfolding b concat_pairs_length by simp
  have d: "\<forall>i < length properties.
              propertyMapFlags flag properties ! (2 * i) = flag
              \<and> propertyMapFlags flag properties ! (2 * i + 1) = ?args ! i"
  proof (intro allI impI)
    fix i
    assume "i < length properties"
    then have "i < length ?args" by simp
    from concat_pairs_nth [OF this, of flag]
    show "propertyMapFlags flag properties ! (2 * i) = flag
        \<and> propertyMapFlags flag properties ! (2 * i + 1) = ?args ! i"
      unfolding b .
  qed
  have first: "\<exists>args. sorted args
        \<and> mset args = mset (map ?kv properties)
        \<and> propertyMapFlags flag properties = concat (map (\<lambda>arg. [flag, arg]) args)
        \<and> length (propertyMapFlags flag properties) = 2 * length properties
        \<and> (\<forall>i < length properties.
              propertyMapFlags flag properties ! (2 * i) = flag
              \<and> propertyMapFlags flag properties ! (2 * i + 1) = args ! i)"
    by (rule exI [of _ ?args])
      (rule conjI [OF a conjI [OF a' conjI [OF b conjI [OF c d]]]])
  have order: "distinct (map fst properties) \<and> distinct (map fst properties')
        \<and> map_of properties = map_of properties'
       \<longrightarrow> propertyMapFlags flag properties = propertyMapFlags flag properties'"
  proof
    assume a: "distinct (map fst properties) \<and> distinct (map fst properties')
        \<and> map_of properties = map_of properties'"
    then have "mset properties = mset properties'" by (intro same_map_same_mset) simp_all
    then have "mset (map ?kv properties) = mset (map ?kv properties')"
      by (simp only: mset_map)
    then have "sort (map ?kv properties) = sort (map ?kv properties')"
      by (rule sort_cong_mset)
    then show "propertyMapFlags flag properties = propertyMapFlags flag properties'"
      by (simp only: propertyMapFlags_eq)
  qed
  have empty: "propertyMapFlags flag [] = []"
    by (simp add: propertyMapFlags_def)
  have ex1: "propertyMapFlags ''-o'' [(''quota'', ''10G''), (''feature@async_destroy'', ''disabled'')]
       = [''-o'', ''feature@async_destroy=disabled'', ''-o'', ''quota=10G'']"
    by (simp add: propertyMapFlags_def)
  have ex2: "propertyMapFlags ''-o'' [(''feature@async_destroy'', ''disabled''), (''quota'', ''10G'')]
       = [''-o'', ''feature@async_destroy=disabled'', ''-o'', ''quota=10G'']"
    by (simp add: propertyMapFlags_def)
  show ?thesis
    by (rule conjI [OF first conjI [OF order conjI [OF empty conjI [OF ex1 ex2]]]])
qed

theorem propertyMapFlags_sorted_pairs_witness:
  "propertyMapFlags ''-O'' [(''b'', ''2''), (''a'', ''1'')]
     = propertyMapFlags ''-O'' [(''a'', ''1''), (''b'', ''2'')]
   \<and> propertyMapFlags ''-O'' [(''a'', ''1''), (''b'', ''2'')] = [''-O'', ''a=1'', ''-O'', ''b=2'']"
proof -
  have h: "distinct (map fst [(''b'', ''2''), (''a'', ''1'')])
      \<and> distinct (map fst [(''a'', ''1''), (''b'', ''2'')])
      \<and> map_of [(''b'', ''2''), (''a'', ''1'')] = map_of [(''a'', ''1''), (''b'', ''2'')]"
    by (auto simp: fun_eq_iff)
  have "propertyMapFlags ''-O'' [(''b'', ''2''), (''a'', ''1'')]
     = propertyMapFlags ''-O'' [(''a'', ''1''), (''b'', ''2'')]"
    by (rule mp [OF propertyMapFlags_sorted_pairs [where flag = "''-O''"
        and properties = "[(''b'', ''2''), (''a'', ''1'')]"
        and properties' = "[(''a'', ''1''), (''b'', ''2'')]", THEN conjunct2, THEN conjunct1] h])
  moreover have "propertyMapFlags ''-O'' [(''a'', ''1''), (''b'', ''2'')]
      = [''-O'', ''a=1'', ''-O'', ''b=2'']"
    by (simp add: propertyMapFlags_def)
  ultimately show ?thesis by simp
qed

text \<open>
  C1 is not what the code does. \<^verbatim>\<open>propertyMapFlags\<close> has no check of the names: for a map
  with the empty name, and for a map with the name \<open>all\<close>, it returns the arguments,
  and \<^verbatim>\<open>CreateDataset\<close> runs the command with them. \<^verbatim>\<open>SetDatasetProperty\<close>, which takes
  one name, rejects both names with the invalid-property error and runs nothing.
\<close>

theorem propertyMapFlags_accepts_invalid_names:
  "propertyMapFlags '''' [('''', ''what''), (''quota'', ''10G'')]
     = ['''', ''=what'', '''', ''quota=10G'']
   \<and> propertyMapFlags ''-o'' [(''all'', ''what''), (''quota'', ''10G'')]
     = [''-o'', ''all=what'', ''-o'', ''quota=10G'']
   \<and> CreateDataset (\<lambda>prog args. ('''', '''', None))
       (Some \<lparr>Options_Name = ''tank/ds'', Options_Properties = [(''all'', ''what'')],
              CreateParents = False, Unmounted = False, VolumeSize = '''',
              BlockSize = '''', Sparse = False\<rparr>)
     = ([(''zfs'', [''create'', ''-o'', ''all=what'', ''tank/ds''])], None)
   \<and> SetDatasetProperty (\<lambda>prog args. ('''', '''', None)) ''tank/ds'' ''all'' ''what''
     = ([], Some [ErrZFS, ErrInvalidProperty])
   \<and> SetDatasetProperty (\<lambda>prog args. ('''', '''', None)) ''tank/ds'' '''' ''what''
     = ([], Some [ErrZFS, ErrInvalidProperty])"
  by (simp add: propertyMapFlags_def CreateDataset_def SetDatasetProperty_def zfs_def
      validDatasetName_def allProperty_def errInvalidDatasetProperty_def)

section \<open>Times\<close>

lemmas eval_TrimSpace = strings_TrimSpace_def dropRunes.simps runeAt_def spaceRunes_def

lemmas eval_ParseInt =
  strconv_ParseInt_def strconv_ParseUint_def isDigit_def digitVal_def maxUint64_def

lemmas eval_time_Parse =
  time_Parse_def parseDay_def parseHour_def parseMinute_def parseYear_def
  lookup_def shortDayNames_def shortMonthNames_def match_def matchByte_def
  skipSpace_def skipColon_def getnum_def isDigitAt_def isDigit_def digitVal_def
  decimal_def daysIn_def daysBefore_def isLeap_def time_Date_def daysBeforeYear_def

lemma wrap64_Unix_roundtrip:
  assumes "- (2 ^ 63) \<le> sec" and "sec < 2 ^ 63"
  shows "wrap64 (wrap64 (sec + unixToInternal) - unixToInternal) = sec"
proof -
  have "(wrap64 (sec + unixToInternal) - unixToInternal + 2 ^ 63) mod 2 ^ 64
      = ((sec + unixToInternal + 2 ^ 63) mod 2 ^ 64 - 2 ^ 63 - unixToInternal + 2 ^ 63) mod 2 ^ 64"
    by (simp add: wrap64_def)
  also have "\<dots> = ((sec + unixToInternal + 2 ^ 63) mod 2 ^ 64 - unixToInternal) mod 2 ^ 64"
    by simp
  also have "\<dots> = (sec + unixToInternal + 2 ^ 63 - unixToInternal) mod 2 ^ 64"
    by (simp add: mod_diff_left_eq)
  also have "\<dots> = (sec + 2 ^ 63) mod 2 ^ 64" by simp
  also have "\<dots> = sec + 2 ^ 63" using assms by simp
  finally show ?thesis by (simp add: wrap64_def)
qed

lemma ParseInt_range:
  "strconv_ParseInt s = Inr v \<Longrightarrow> - (2 ^ 63) \<le> v \<and> v < 2 ^ 63"
  by (auto simp: strconv_ParseInt_def Let_def split: if_splits)

lemma Time_absent:
  "p property = None \<or> (\<exists>entry. p property = Some entry \<and> (Value entry = '''' \<or> Value entry = ''-''))
   \<Longrightarrow> Time p property = (\<lparr>ext = 0, loc = UTC\<rparr>, False)"
  by (auto simp: Time_def zeroTime_def)

lemma Time_present:
  assumes "p property = Some entry" and "Value entry \<noteq> ''''" and "Value entry \<noteq> ''-''"
  shows "Time p property =
     (case strconv_ParseInt (strings_TrimSpace (Value entry)) of
        Inr sec \<Rightarrow> (Time_UTC (time_Unix sec), True)
      | Inl e \<Rightarrow>
          (case time_Parse (strings_TrimSpace (Value entry)) of
             Some t \<Rightarrow> (Time_UTC t, True)
           | None \<Rightarrow> (\<lparr>ext = 0, loc = UTC\<rparr>, False)))"
  using assms
  by (simp add: Time_def parseTime_def zeroTime_def split: sum.splits option.splits)

lemma Time_loc: "loc (fst (Time p property)) = UTC"
  by (auto simp: Time_def parseTime_def zeroTime_def Time_UTC_def Let_def
      split: sum.splits option.splits)

lemma Time_epoch:
  assumes "p property = Some entry" and "Value entry \<noteq> ''''" and "Value entry \<noteq> ''-''"
    and "strconv_ParseInt (strings_TrimSpace (Value entry)) = Inr sec"
  shows "snd (Time p property) \<and> Time_Unix (fst (Time p property)) = sec"
proof -
  from assms have "Time p property = (Time_UTC (time_Unix sec), True)"
    by (simp add: Time_present)
  moreover have "Time_Unix (Time_UTC (time_Unix sec)) = sec"
    using ParseInt_range [OF assms(4)]
    by (simp add: Time_Unix_def Time_UTC_def time_Unix_def wrap64_Unix_roundtrip)
  ultimately show ?thesis by simp
qed

lemma Time_example_epoch:
  "Time (Map.empty(''creation'' \<mapsto>
      \<lparr>Name = ''tank'', Property = ''creation'', Value = ''1651487819'', Source = ''-''\<rparr>))
     ''creation''
   = (\<lparr>ext = 63787084619, loc = UTC\<rparr>, True)"
  by (simp add: Time_def parseTime_def eval_TrimSpace eval_ParseInt
      Time_UTC_def time_Unix_def wrap64_def unixToInternal_def)

lemma Time_example_layout:
  "Time (Map.empty(''creation'' \<mapsto>
      \<lparr>Name = ''tank'', Property = ''creation'', Value = ''Mon May  2 10:36 2022'', Source = ''-''\<rparr>))
     ''creation''
   = (\<lparr>ext = 63787084560, loc = UTC\<rparr>, True)"
  by (simp add: Time_def parseTime_def eval_TrimSpace eval_ParseInt eval_time_Parse
      Time_UTC_def)

text \<open>
  C8. \<^verbatim>\<open>Time\<close> treats a missing key, the empty value and \<open>-\<close> as absent (the zero time
  and false). For any other value it trims the white space, first reads the text as
  a decimal integer, which it takes as the seconds of the Unix epoch (the time's
  \<^verbatim>\<open>Unix()\<close> is that integer), and otherwise parses it with the layout
  \<^verbatim>\<open>Mon Jan _2 15:04 2006\<close>; a value that is neither is absent. The time returned is in
  UTC in every case. The values \<open>1651487819\<close> and \<open>Mon May  2 10:36 2022\<close> are both
  present and decode to 2022-05-02 10:36:59 and 10:36:00 UTC: the same minute (their
  Unix seconds divided by 60 agree).
\<close>

theorem Time_epoch_then_layout:
  "(p property = None
      \<or> (\<exists>entry. p property = Some entry \<and> (Value entry = '''' \<or> Value entry = ''-''))
     \<longrightarrow> Time p property = (\<lparr>ext = 0, loc = UTC\<rparr>, False))
   \<and> (p property = Some entry \<and> Value entry \<noteq> '''' \<and> Value entry \<noteq> ''-''
     \<longrightarrow> Time p property =
         (case strconv_ParseInt (strings_TrimSpace (Value entry)) of
            Inr sec \<Rightarrow> (Time_UTC (time_Unix sec), True)
          | Inl e \<Rightarrow>
              (case time_Parse (strings_TrimSpace (Value entry)) of
                 Some t \<Rightarrow> (Time_UTC t, True)
               | None \<Rightarrow> (\<lparr>ext = 0, loc = UTC\<rparr>, False))))
   \<and> (p property = Some entry \<and> Value entry \<noteq> '''' \<and> Value entry \<noteq> ''-''
        \<and> strconv_ParseInt (strings_TrimSpace (Value entry)) = Inr sec
     \<longrightarrow> snd (Time p property) \<and> Time_Unix (fst (Time p property)) = sec)
   \<and> loc (fst (Time p property)) = UTC
   \<and> Time (Map.empty(''creation'' \<mapsto>
        \<lparr>Name = ''tank'', Property = ''creation'', Value = ''1651487819'', Source = ''-''\<rparr>))
       ''creation''
     = (\<lparr>ext = 63787084619, loc = UTC\<rparr>, True)
   \<and> Time (Map.empty(''creation'' \<mapsto>
        \<lparr>Name = ''tank'', Property = ''creation'', Value = ''Mon May  2 10:36 2022'', Source = ''-''\<rparr>))
       ''creation''
     = (\<lparr>ext = 63787084560, loc = UTC\<rparr>, True)
   \<and> Time_Unix \<lparr>ext = 63787084619, loc = UTC\<rparr> = 1651487819
   \<and> Time_Unix \<lparr>ext = 63787084560, loc = UTC\<rparr> = 1651487760
   \<and> Time_Unix \<lparr>ext = 63787084619, loc = UTC\<rparr> div 60
     = Time_Unix \<lparr>ext = 63787084560, loc = UTC\<rparr> div 60"
proof -
  have a: "p property = None
      \<or> (\<exists>entry. p property = Some entry \<and> (Value entry = '''' \<or> Value entry = ''-''))
     \<longrightarrow> Time p property = (\<lparr>ext = 0, loc = UTC\<rparr>, False)"
    using Time_absent [of p property] by (rule impI)
  have b: "p property = Some entry \<and> Value entry \<noteq> '''' \<and> Value entry \<noteq> ''-''
     \<longrightarrow> Time p property =
         (case strconv_ParseInt (strings_TrimSpace (Value entry)) of
            Inr sec \<Rightarrow> (Time_UTC (time_Unix sec), True)
          | Inl e \<Rightarrow>
              (case time_Parse (strings_TrimSpace (Value entry)) of
                 Some t \<Rightarrow> (Time_UTC t, True)
               | None \<Rightarrow> (\<lparr>ext = 0, loc = UTC\<rparr>, False)))"
    using Time_present [of p property entry] by (intro impI) (elim conjE)
  have c: "p property = Some entry \<and> Value entry \<noteq> '''' \<and> Value entry \<noteq> ''-''
        \<and> strconv_ParseInt (strings_TrimSpace (Value entry)) = Inr sec
     \<longrightarrow> snd (Time p property) \<and> Time_Unix (fst (Time p property)) = sec"
    using Time_epoch [of p property entry sec] by (intro impI) (elim conjE)
  have d: "loc (fst (Time p property)) = UTC" by (rule Time_loc)
  have u1: "Time_Unix \<lparr>ext = 63787084619, loc = UTC\<rparr> = 1651487819"
    by (simp add: Time_Unix_def wrap64_def unixToInternal_def)
  have u2: "Time_Unix \<lparr>ext = 63787084560, loc = UTC\<rparr> = 1651487760"
    by (simp add: Time_Unix_def wrap64_def unixToInternal_def)
  have m: "Time_Unix \<lparr>ext = 63787084619, loc = UTC\<rparr> div 60
     = Time_Unix \<lparr>ext = 63787084560, loc = UTC\<rparr> div 60"
    by (simp add: u1 u2)
  show ?thesis
    by (rule conjI [OF a conjI [OF b conjI [OF c conjI [OF d
          conjI [OF Time_example_epoch conjI [OF Time_example_layout
          conjI [OF u1 conjI [OF u2 m]]]]]]]])
qed

theorem Time_epoch_then_layout_witness:
  "Time (Map.empty(''creation'' \<mapsto>
        \<lparr>Name = ''tank'', Property = ''creation'', Value = ''0'', Source = ''-''\<rparr>))
       ''creation''
     = (\<lparr>ext = 62135596800, loc = UTC\<rparr>, True)
   \<and> Time (Map.empty(''creation'' \<mapsto>
        \<lparr>Name = ''tank'', Property = ''creation'', Value = ''-'', Source = ''-''\<rparr>))
       ''creation''
     = (\<lparr>ext = 0, loc = UTC\<rparr>, False)"
proof -
  let ?p0 = "Map.empty(''creation'' \<mapsto>
        \<lparr>Name = ''tank'', Property = ''creation'', Value = ''0'', Source = ''-''\<rparr>)"
  let ?p1 = "Map.empty(''creation'' \<mapsto>
        \<lparr>Name = ''tank'', Property = ''creation'', Value = ''-'', Source = ''-''\<rparr>)"
  have t: "strings_TrimSpace ''0'' = ''0''" by (simp add: eval_TrimSpace)
  have i: "strconv_ParseInt ''0'' = Inr 0" by (simp add: eval_ParseInt)
  have first: "Time ?p0 ''creation'' = (\<lparr>ext = 62135596800, loc = UTC\<rparr>, True)"
    using Time_epoch_then_layout [where p = ?p0 and property = "''creation''"
        and entry = "\<lparr>Name = ''tank'', Property = ''creation'', Value = ''0'', Source = ''-''\<rparr>",
        THEN conjunct2, THEN conjunct1]
    by (simp add: t i Time_UTC_def time_Unix_def wrap64_def unixToInternal_def)
  have second: "Time ?p1 ''creation'' = (\<lparr>ext = 0, loc = UTC\<rparr>, False)"
    using Time_epoch_then_layout [where p = ?p1 and property = "''creation''",
        THEN conjunct1]
    by simp
  show ?thesis by (rule conjI [OF first second])
qed

section \<open>Sizes\<close>

lemma pow2_pos: "0 < pow2 k"
  by (simp add: pow2_def)

lemma pow2_nat: "pow2 (int n) = 2 ^ n"
  by (simp add: pow2_def)

lemma pow2_add: "pow2 (i + j) = pow2 i * pow2 j"
proof -
  have "pow2 k = 2 powi k" for k
    by (simp add: pow2_def power_int_def field_simps)
  then show ?thesis by (simp add: power_int_add)
qed

lemma roundHalfEven_of_int: "roundHalfEven (of_int z) = z"
  by (simp add: roundHalfEven_def)

lemma f64_exact:
  assumes "0 < a" and "a < 2 ^ 53" and "a * 2 ^ b < 2 ^ 1024"
  shows "f64 (of_nat a * 2 ^ b) = Some (of_nat a * 2 ^ b)"
proof -
  let ?q = "of_nat a * 2 ^ b :: rat"
  have q_int: "?q = of_int (int a * 2 ^ b)" by simp
  have q_ge1: "1 \<le> ?q"
  proof -
    have "(1::rat) \<le> of_nat a" using assms(1) by simp
    moreover have "(1::rat) \<le> 2 ^ b" by simp
    ultimately show ?thesis using mult_mono [of 1 "of_nat a :: rat" 1 "2 ^ b"] by simp
  qed
  have floor_q: "\<lfloor>?q\<rfloor> = int a * 2 ^ b"
    unfolding q_int by (rule floor_of_int)
  have bl: "bitlen (int a * 2 ^ b) = bitlen (int a) + int b"
    using assms(1) by (simp add: bitlen_pow2)
  have bl_hi: "bitlen (int a) \<le> 53"
    using assms(2) by (simp add: bitlen_le_iff_power)
  have bl_lo: "1 \<le> bitlen (int a)"
    using assms(1) by (simp add: bitlen_ge_iff_power)
  define p where "p = bitlen (int a) + int b - 53"
  have ilog: "ilog2 ?q = bitlen (int a) + int b - 1"
    using q_ge1 by (simp only: ilog2_def floor_q bl if_True)
  have p_max: "max (ilog2 ?q - 52) (- 1074) = p"
    using bl_lo by (simp add: ilog p_def)
  have p_le: "p \<le> int b" using bl_hi by (simp add: p_def)
  define d where "d = nat (int b - p)"
  have "pow2 (int b) = pow2 (int d) * pow2 p"
    using p_le by (simp add: d_def flip: pow2_add)
  then have split: "(2::rat) ^ b = 2 ^ d * pow2 p" by (simp add: pow2_nat)
  have quot: "?q / pow2 p = of_int (int a * 2 ^ d)"
    using pow2_pos [of p] by (simp add: split)
  have "of_int (roundHalfEven (?q / pow2 p)) * pow2 p = ?q"
    unfolding quot roundHalfEven_of_int using split by simp
  moreover have "?q < 2 ^ 1024"
  proof -
    have "(of_nat (a * 2 ^ b) :: rat) < of_nat (2 ^ 1024)"
      using assms(3) by (simp only: of_nat_less_iff)
    then show ?thesis by simp
  qed
  moreover have "\<not> ?q \<le> 0" using q_ge1 by simp
  ultimately show ?thesis
    by (simp add: f64_def Let_def p_max del: of_nat_mult of_nat_power)
qed

lemma dropRunes_id: "runeAt runes s = 0 \<Longrightarrow> dropRunes runes s = s"
  by (subst dropRunes.simps) simp

lemma runeAt_zero:
  assumes "\<forall>r \<in> set runes. r \<noteq> [] \<and> hd r \<noteq> c"
  shows "runeAt runes (c # cs) = 0"
proof -
  have "filter (\<lambda>r. take (length r) (c # cs) = r) runes = []"
  proof (rule ccontr)
    assume "filter (\<lambda>r. take (length r) (c # cs) = r) runes \<noteq> []"
    then obtain r where r: "r \<in> set runes" and t: "take (length r) (c # cs) = r"
      by (auto simp: filter_empty_conv)
    from assms r obtain b bs where b: "r = b # bs" and "b \<noteq> c"
      by (cases r) auto
    with t show False by simp
  qed
  then show ?thesis by (simp add: runeAt_def)
qed

lemma space_first_bytes:
  "\<forall>r \<in> set spaceRunes. r \<noteq> [] \<and> \<not> isDigit (hd r) \<and> \<not> isLetter (hd r)"
  by (simp add: spaceRunes_def isDigit_def isLetter_def)

lemma space_last_bytes:
  "\<forall>r \<in> set (map rev spaceRunes). r \<noteq> [] \<and> \<not> isDigit (hd r) \<and> \<not> isLetter (hd r)"
  by (simp add: spaceRunes_def isDigit_def isLetter_def)

lemma no_space_at:
  assumes "isDigit c \<or> isLetter c"
  shows "runeAt spaceRunes (c # cs) = 0" and "runeAt (map rev spaceRunes) (c # cs) = 0"
proof -
  show "runeAt spaceRunes (c # cs) = 0"
    using assms space_first_bytes by (intro runeAt_zero) blast
  show "runeAt (map rev spaceRunes) (c # cs) = 0"
    using assms space_last_bytes by (intro runeAt_zero) blast
qed

lemma TrimSpace_id:
  assumes "s \<noteq> []" and "isDigit (hd s) \<or> isLetter (hd s)"
    and "isDigit (last s) \<or> isLetter (last s)"
  shows "strings_TrimSpace s = s"
proof -
  from assms(1) obtain c cs where s: "s = c # cs" by (cases s) auto
  from assms(1) obtain d ds where r: "rev s = d # ds" by (cases "rev s") auto
  then have d: "d = last s" using assms(1) by (metis last_rev list.sel(1) rev_rev_ident rev_is_Nil_conv)
  have "dropRunes spaceRunes s = s"
    using assms(2) unfolding s by (simp add: dropRunes_id no_space_at)
  moreover have "dropRunes (map rev spaceRunes) (rev s) = rev s"
    using assms(3) unfolding r d [symmetric] by (simp add: dropRunes_id no_space_at)
  ultimately show ?thesis by (simp add: strings_TrimSpace_def)
qed

lemma digit_classes:
  assumes "isDigit d"
  shows "isNumChar d" and "d \<noteq> CHR '',''" and "\<not> isLetter d"
  using assms by (auto simp: isNumChar_def isDigit_def isLetter_def less_eq_char_def)

lemma unit_classes:
  assumes "c \<in> {CHR ''K'', CHR ''M'', CHR ''G'', CHR ''T'', CHR ''P''}"
  shows "isLetter c" and "\<not> isDigit c" and "\<not> isNumChar c" and "\<not> reSpace c"
  using assms by (auto simp: isNumChar_def isDigit_def isLetter_def reSpace_def)

lemma takeWhile_isDigit_all:
  "list_all isDigit ds \<Longrightarrow> takeWhile isDigit ds = ds \<and> dropWhile isDigit ds = []"
  by (induction ds) auto

lemma takeWhile_isNumChar_all:
  "list_all isDigit ds \<Longrightarrow> takeWhile isNumChar ds = ds \<and> dropWhile isNumChar ds = []"
  by (induction ds) (auto simp: digit_classes)

lemma takeWhile_isDigit_stop:
  "list_all isDigit ds \<Longrightarrow> \<not> isDigit c \<Longrightarrow>
   takeWhile isDigit (ds @ c # rest) = ds \<and> dropWhile isDigit (ds @ c # rest) = c # rest"
  by (induction ds) auto

lemma takeWhile_isNumChar_stop:
  "list_all isDigit ds \<Longrightarrow> \<not> isNumChar c \<Longrightarrow>
   takeWhile isNumChar (ds @ c # rest) = ds \<and> dropWhile isNumChar (ds @ c # rest) = c # rest"
  by (induction ds) (auto simp: digit_classes)

lemma regexp_digits_unit:
  assumes "list_all isDigit ds" and "ds \<noteq> []"
    and "c \<in> {CHR ''K'', CHR ''M'', CHR ''G'', CHR ''T'', CHR ''P''}"
  shows "zfsIECSizeRegexp_MatchString (ds @ [c])"
  unfolding zfsIECSizeRegexp_MatchString_def
    takeWhile_isDigit_stop [OF assms(1) unit_classes(2) [OF assms(3)], of "[]", THEN conjunct1]
    takeWhile_isDigit_stop [OF assms(1) unit_classes(2) [OF assms(3)], of "[]", THEN conjunct2]
  using assms(2) unit_classes(1,4) [OF assms(3)] by simp

lemma regexp_digits:
  assumes "list_all isDigit ds"
  shows "\<not> zfsIECSizeRegexp_MatchString ds"
  unfolding zfsIECSizeRegexp_MatchString_def
    takeWhile_isDigit_all [OF assms, THEN conjunct1]
    takeWhile_isDigit_all [OF assms, THEN conjunct2]
  by simp

lemma filter_comma_digits:
  "list_all isDigit ds \<Longrightarrow> filter (\<lambda>c. c \<noteq> CHR '','') ds = ds"
  by (induction ds) (auto simp: digit_classes)

lemma ParseFloat_decimal_digits:
  assumes "list_all isDigit ds" and "ds \<noteq> []"
  shows "ParseFloat_decimal ds = f64 (of_nat (decimal ds))"
  unfolding ParseFloat_decimal_def Let_def
    takeWhile_isDigit_all [OF assms(1), THEN conjunct1]
    takeWhile_isDigit_all [OF assms(1), THEN conjunct2]
  using assms(2) by simp

lemma unit_lookup:
  "map_of bytesSizeTable (strings_ToLower (strings_TrimSpace ''KiB'')) = Some (2 ^ 10)"
  "map_of bytesSizeTable (strings_ToLower (strings_TrimSpace ''MiB'')) = Some (2 ^ 20)"
  "map_of bytesSizeTable (strings_ToLower (strings_TrimSpace ''GiB'')) = Some (2 ^ 30)"
  "map_of bytesSizeTable (strings_ToLower (strings_TrimSpace ''TiB'')) = Some (2 ^ 40)"
  "map_of bytesSizeTable (strings_ToLower (strings_TrimSpace ''PiB'')) = Some (2 ^ 50)"
  "map_of bytesSizeTable (strings_ToLower (strings_TrimSpace '''')) = Some 1"
  by (simp_all add: eval_TrimSpace strings_ToLower.simps toLowerASCII_def bytesSizeTable_def)

lemma f64_zero: "f64 0 = Some 0"
  by (simp add: f64_def)

lemma f64_nat_pow2:
  assumes "n \<le> 2 ^ 53" and "b \<le> 60"
  shows "f64 (of_nat n * 2 ^ b) = Some (of_nat n * 2 ^ b)"
proof -
  consider (zero) "n = 0" | (small) "0 < n" "n < 2 ^ 53" | (top) "n = 2 ^ 53"
    using assms(1) by fastforce
  then show ?thesis
  proof cases
    case zero
    then show ?thesis by (simp add: f64_zero)
  next
    case small
    have "(2::nat) ^ b \<le> 2 ^ 60" using assms(2) by (intro power_increasing) simp_all
    then have "n * 2 ^ b < 2 ^ 53 * 2 ^ 60"
      using small(2) by (intro mult_less_le_imp_less) simp_all
    also have "\<dots> < (2::nat) ^ 1024" by (simp flip: power_add)
    finally show ?thesis using small by (intro f64_exact)
  next
    case top
    have "(2::nat) ^ (53 + b) < 2 ^ 1024"
      using assms(2) by (intro power_strict_increasing) simp_all
    then have "(1::nat) * 2 ^ (53 + b) < 2 ^ 1024"
      by (simp only: nat_mult_1)
    then have "f64 (of_nat 1 * 2 ^ (53 + b)) = Some (of_nat 1 * 2 ^ (53 + b))"
      by (intro f64_exact) simp_all
    then show ?thesis using top by (simp add: power_add)
  qed
qed

lemma ParseBytes_digits:
  assumes "list_all isDigit ds" and "ds \<noteq> []" and "decimal ds \<le> 2 ^ 53"
    and "rest = [] \<or> \<not> isNumChar (hd rest)"
    and "map_of bytesSizeTable (strings_ToLower (strings_TrimSpace rest)) = Some (2 ^ b)"
    and "b \<le> 60"
  shows "humanize_ParseBytes (ds @ rest)
     = (if decimal ds * 2 ^ b < 2 ^ 64 then Some (decimal ds * 2 ^ b) else None)"
proof -
  have pre: "takeWhile isNumChar (ds @ rest) = ds \<and> dropWhile isNumChar (ds @ rest) = rest"
  proof (cases rest)
    case Nil
    then show ?thesis using takeWhile_isNumChar_all [OF assms(1)] by simp
  next
    case (Cons c cs)
    with assms(4) have "\<not> isNumChar c" by simp
    from takeWhile_isNumChar_stop [OF assms(1) this, of cs] Cons show ?thesis by simp
  qed
  have num: "ParseFloat_decimal (filter (\<lambda>c. c \<noteq> CHR '','') ds) = Some (of_nat (decimal ds))"
    using f64_nat_pow2 [OF assms(3), of 0]
    by (simp add: filter_comma_digits [OF assms(1)] ParseFloat_decimal_digits [OF assms(1,2)])
  have prod: "f64 (of_nat (decimal ds) * of_nat (2 ^ b)) = Some (of_nat (decimal ds * 2 ^ b))"
    using f64_nat_pow2 [OF assms(3,6)] by simp
  have cmp: "((2::rat) ^ 64 \<le> of_nat (decimal ds * 2 ^ b)) = (2 ^ 64 \<le> decimal ds * 2 ^ b)"
  proof -
    have "((of_nat (2 ^ 64) :: rat) \<le> of_nat (decimal ds * 2 ^ b))
        = (2 ^ 64 \<le> decimal ds * 2 ^ b)"
      by (simp only: of_nat_le_iff)
    then show ?thesis by simp
  qed
  have fl: "nat \<lfloor>of_nat (decimal ds * 2 ^ b) :: rat\<rfloor> = decimal ds * 2 ^ b"
    by (simp only: floor_of_nat nat_int)
  show ?thesis
    unfolding humanize_ParseBytes_def Let_def pre [THEN conjunct1] pre [THEN conjunct2]
      num assms(5) option.case prod cmp fl
    by (simp add: not_le)
qed

lemma floor_rat_numeral_div:
  "\<lfloor>numeral a / numeral b :: rat\<rfloor> = numeral a div numeral b"
  using floor_divide_of_int_eq [of "numeral a" "numeral b", where ?'a = rat] by simp

lemmas eval_f64 =
  f64_def ilog2_def Let_def bitlen_def compute_floorlog roundHalfEven_def pow2_def
  floor_rat_numeral_div

lemma e1: "f64 9007199254740993 = Some 9007199254740992"
  by (simp add: eval_f64)

lemma e2: "f64 9007199254740995 = Some 9007199254740996"
  by (simp add: eval_f64)

lemma e3: "f64 (1 / 10) = Some (3602879701896397 / 36028797018963968)"
  by (simp add: eval_f64)

lemma parseSize_digits_unit:
  assumes "list_all isDigit ds" and "ds \<noteq> []" and "decimal ds \<le> 2 ^ 53"
    and "(c, k) \<in> set [(CHR ''K'', 1), (CHR ''M'', 2), (CHR ''G'', 3), (CHR ''T'', 4), (CHR ''P'', 5)]"
  shows "parseSize p (ds @ [c])
     = (if decimal ds * 1024 ^ k < 2 ^ 64 then Some (decimal ds * 1024 ^ k) else None)"
proof -
  from assms(4) have c: "c \<in> {CHR ''K'', CHR ''M'', CHR ''G'', CHR ''T'', CHR ''P''}"
    by auto
  from assms(1,2) have hd: "isDigit (hd (ds @ [c]))" by (cases ds) auto
  have "isLetter (last (ds @ [c]))" using unit_classes(1) [OF c] by simp
  with hd have trim: "strings_TrimSpace (ds @ [c]) = ds @ [c]"
    by (intro TrimSpace_id) simp_all
  have re: "zfsIECSizeRegexp_MatchString (ds @ [c])"
    using assms(1,2) c by (rule regexp_digits_unit)
  have size: "parseSize p (ds @ [c]) = humanize_ParseBytes (ds @ (c # ''iB''))"
    by (simp add: parseSize_def trim re)
  have nn: "c # ''iB'' = [] \<or> \<not> isNumChar (hd (c # ''iB''))"
    using unit_classes(3) [OF c] by simp
  have look: "map_of bytesSizeTable (strings_ToLower (strings_TrimSpace (c # ''iB'')))
      = Some (2 ^ (10 * k))" and k: "10 * k \<le> 60" and pw: "(1024::nat) ^ k = 2 ^ (10 * k)"
    using assms(4) unit_lookup by auto
  show ?thesis
    unfolding size pw
    by (rule ParseBytes_digits [OF assms(1,2,3) nn look k])
qed

lemma parseSize_digits:
  assumes "list_all isDigit ds" and "ds \<noteq> []" and "decimal ds \<le> 2 ^ 53"
  shows "parseSize p ds = Some (decimal ds)"
proof -
  have trim: "strings_TrimSpace ds = ds"
  proof (rule TrimSpace_id [OF assms(2)])
    from assms(1,2) show "isDigit (hd ds) \<or> isLetter (hd ds)" by (cases ds) auto
    from assms(1,2) show "isDigit (last ds) \<or> isLetter (last ds)"
      by (cases ds rule: rev_cases) auto
  qed
  have re: "\<not> zfsIECSizeRegexp_MatchString ds" using assms(1) by (rule regexp_digits)
  have "(2::nat) ^ 53 < 2 ^ 64" by simp
  with assms(3) have lt: "decimal ds * 2 ^ 0 < 2 ^ 64" by simp
  have "humanize_ParseBytes (ds @ [])
      = (if decimal ds * 2 ^ 0 < 2 ^ 64 then Some (decimal ds * 2 ^ 0) else None)"
    using unit_lookup(6) by (intro ParseBytes_digits [OF assms]) simp_all
  then show ?thesis using lt by (simp add: parseSize_def trim re)
qed

lemma digits_not_sentinel:
  "list_all isDigit ds \<Longrightarrow> ds \<noteq> [] \<Longrightarrow> ds \<noteq> ''-'' \<and> ds @ [c] \<noteq> ''-''"
  by (cases ds) (auto simp: isDigit_def)

lemma Bytes_of_parseSize:
  "p property = Some entry \<Longrightarrow> Value entry \<noteq> ''-'' \<Longrightarrow>
   Bytes p property
     = (case parseSize p (Value entry) of Some r \<Rightarrow> (r, True) | None \<Rightarrow> (0, False))"
  by (simp add: Bytes_def)

lemma Bytes_example_rounding:
  "Bytes (Map.empty(''used'' \<mapsto>
      \<lparr>Name = ''tank'', Property = ''used'', Value = ''9007199254740993'', Source = ''-''\<rparr>))
     ''used''
   = (9007199254740992, True)"
  by (simp add: Bytes_def parseSize_def eval_TrimSpace zfsIECSizeRegexp_MatchString_def
      isDigit_def reSpace_def humanize_ParseBytes_def isNumChar_def ParseFloat_decimal_def
      decimal_def digitVal_def strings_ToLower.simps bytesSizeTable_def eval_f64)

lemma Bytes_example_too_large:
  "Bytes (Map.empty(''used'' \<mapsto>
      \<lparr>Name = ''tank'', Property = ''used'', Value = ''16384P'', Source = ''-''\<rparr>))
     ''used''
   = (0, False)"
proof -
  have d: "list_all isDigit ''16384''" "''16384'' \<noteq> []" "decimal ''16384'' = 16384"
    by (simp_all add: isDigit_def decimal_def digitVal_def)
  have "parseSize p (''16384'' @ [CHR ''P''])
      = (if decimal ''16384'' * 1024 ^ 5 < 2 ^ 64
         then Some (decimal ''16384'' * 1024 ^ 5) else None)" for p
    using d by (intro parseSize_digits_unit) simp_all
  then have "parseSize p ''16384P'' = None" for p
    by (simp add: d(3))
  then show ?thesis by (simp add: Bytes_def)
qed

text \<open>
  C2, as the code has it. Let \<open>n\<close> be the number written by a text of decimal digits
  that is not empty, with \<open>n \<le> 2^53\<close>. When the raw value is the text alone, \<^verbatim>\<open>Bytes\<close>
  returns \<open>n\<close> and true. When the raw value is the text followed by one of the
  letters K, M, G, T, P, with \<open>k\<close> = 1, 2, 3, 4, 5, \<^verbatim>\<open>Bytes\<close> returns \<open>n * 1024^k\<close> and
  true when that is below \<open>2^64\<close>, and 0 and false otherwise. In particular \<open>42K\<close>
  gives 43008, \<open>383M\<close> gives 401604608 and \<open>84G\<close> gives 90194313216.
\<close>

theorem Bytes_binary_units:
  "(p property = Some entry \<and> list_all isDigit ds \<and> ds \<noteq> [] \<and> decimal ds \<le> 2 ^ 53
      \<and> Value entry = ds
     \<longrightarrow> Bytes p property = (decimal ds, True))
   \<and> (p property = Some entry \<and> list_all isDigit ds \<and> ds \<noteq> [] \<and> decimal ds \<le> 2 ^ 53
      \<and> (c, k) \<in> set [(CHR ''K'', 1), (CHR ''M'', 2), (CHR ''G'', 3), (CHR ''T'', 4),
                        (CHR ''P'', 5)]
      \<and> Value entry = ds @ [c]
     \<longrightarrow> Bytes p property
         = (if decimal ds * 1024 ^ k < 2 ^ 64 then (decimal ds * 1024 ^ k, True)
            else (0, False)))
   \<and> Bytes (Map.empty(''used'' \<mapsto>
        \<lparr>Name = ''tank'', Property = ''used'', Value = ''42K'', Source = ''-''\<rparr>)) ''used''
     = (43008, True)
   \<and> Bytes (Map.empty(''used'' \<mapsto>
        \<lparr>Name = ''tank'', Property = ''used'', Value = ''383M'', Source = ''-''\<rparr>)) ''used''
     = (401604608, True)
   \<and> Bytes (Map.empty(''used'' \<mapsto>
        \<lparr>Name = ''tank'', Property = ''used'', Value = ''84G'', Source = ''-''\<rparr>)) ''used''
     = (90194313216, True)"
proof -
  have plain: "p property = Some entry \<and> list_all isDigit ds \<and> ds \<noteq> [] \<and> decimal ds \<le> 2 ^ 53
      \<and> Value entry = ds
     \<longrightarrow> Bytes p property = (decimal ds, True)"
  proof
    assume a: "p property = Some entry \<and> list_all isDigit ds \<and> ds \<noteq> []
      \<and> decimal ds \<le> 2 ^ 53 \<and> Value entry = ds"
    then have "Value entry \<noteq> ''-''" using digits_not_sentinel [of ds] by simp
    with a have "Bytes p property
        = (case parseSize p ds of Some r \<Rightarrow> (r, True) | None \<Rightarrow> (0, False))"
      using Bytes_of_parseSize [of p property entry] by simp
    moreover from a have "parseSize p ds = Some (decimal ds)"
      by (intro parseSize_digits) simp_all
    ultimately show "Bytes p property = (decimal ds, True)" by simp
  qed
  have unit: "p property = Some entry \<and> list_all isDigit ds \<and> ds \<noteq> [] \<and> decimal ds \<le> 2 ^ 53
      \<and> (c, k) \<in> set [(CHR ''K'', 1), (CHR ''M'', 2), (CHR ''G'', 3), (CHR ''T'', 4),
                        (CHR ''P'', 5)]
      \<and> Value entry = ds @ [c]
     \<longrightarrow> Bytes p property
         = (if decimal ds * 1024 ^ k < 2 ^ 64 then (decimal ds * 1024 ^ k, True)
            else (0, False))"
  proof
    assume a: "p property = Some entry \<and> list_all isDigit ds \<and> ds \<noteq> []
      \<and> decimal ds \<le> 2 ^ 53
      \<and> (c, k) \<in> set [(CHR ''K'', 1), (CHR ''M'', 2), (CHR ''G'', 3), (CHR ''T'', 4),
                        (CHR ''P'', 5)]
      \<and> Value entry = ds @ [c]"
    then have "Value entry \<noteq> ''-''" using digits_not_sentinel [of ds c] by simp
    with a have "Bytes p property
        = (case parseSize p (ds @ [c]) of Some r \<Rightarrow> (r, True) | None \<Rightarrow> (0, False))"
      using Bytes_of_parseSize [of p property entry] by simp
    moreover from a have "parseSize p (ds @ [c])
        = (if decimal ds * 1024 ^ k < 2 ^ 64 then Some (decimal ds * 1024 ^ k) else None)"
      by (intro parseSize_digits_unit) simp_all
    ultimately show "Bytes p property
         = (if decimal ds * 1024 ^ k < 2 ^ 64 then (decimal ds * 1024 ^ k, True)
            else (0, False))"
      by simp
  qed
  have ex: "parseSize q (''42'' @ [CHR ''K'']) = Some 43008"
    "parseSize q (''383'' @ [CHR ''M'']) = Some 401604608"
    "parseSize q (''84'' @ [CHR ''G'']) = Some 90194313216" for q
  proof -
    have "parseSize q (''42'' @ [CHR ''K''])
        = (if decimal ''42'' * 1024 ^ 1 < 2 ^ 64 then Some (decimal ''42'' * 1024 ^ 1) else None)"
      by (intro parseSize_digits_unit) (simp_all add: isDigit_def decimal_def digitVal_def)
    then show "parseSize q (''42'' @ [CHR ''K'']) = Some 43008"
      by (simp add: decimal_def digitVal_def)
    have "parseSize q (''383'' @ [CHR ''M''])
        = (if decimal ''383'' * 1024 ^ 2 < 2 ^ 64 then Some (decimal ''383'' * 1024 ^ 2) else None)"
      by (intro parseSize_digits_unit) (simp_all add: isDigit_def decimal_def digitVal_def)
    then show "parseSize q (''383'' @ [CHR ''M'']) = Some 401604608"
      by (simp add: decimal_def digitVal_def)
    have "parseSize q (''84'' @ [CHR ''G''])
        = (if decimal ''84'' * 1024 ^ 3 < 2 ^ 64 then Some (decimal ''84'' * 1024 ^ 3) else None)"
      by (intro parseSize_digits_unit) (simp_all add: isDigit_def decimal_def digitVal_def)
    then show "parseSize q (''84'' @ [CHR ''G'']) = Some 90194313216"
      by (simp add: decimal_def digitVal_def)
  qed
  have e1: "Bytes (Map.empty(''used'' \<mapsto>
        \<lparr>Name = ''tank'', Property = ''used'', Value = ''42K'', Source = ''-''\<rparr>)) ''used''
     = (43008, True)"
    using ex(1) by (simp add: Bytes_def)
  have e2: "Bytes (Map.empty(''used'' \<mapsto>
        \<lparr>Name = ''tank'', Property = ''used'', Value = ''383M'', Source = ''-''\<rparr>)) ''used''
     = (401604608, True)"
    using ex(2) by (simp add: Bytes_def)
  have e3: "Bytes (Map.empty(''used'' \<mapsto>
        \<lparr>Name = ''tank'', Property = ''used'', Value = ''84G'', Source = ''-''\<rparr>)) ''used''
     = (90194313216, True)"
    using ex(3) by (simp add: Bytes_def)
  show ?thesis
    by (rule conjI [OF plain conjI [OF unit conjI [OF e1 conjI [OF e2 e3]]]])
qed

theorem Bytes_binary_units_witness:
  "Bytes (Map.empty(''used'' \<mapsto>
        \<lparr>Name = ''tank'', Property = ''used'', Value = ''1023P'', Source = ''-''\<rparr>)) ''used''
     = (1151795604700004352, True)
   \<and> Bytes (Map.empty(''used'' \<mapsto>
        \<lparr>Name = ''tank'', Property = ''used'', Value = ''239'', Source = ''-''\<rparr>)) ''used''
     = (239, True)"
proof -
  let ?e1 = "\<lparr>Name = ''tank'', Property = ''used'', Value = ''1023P'', Source = ''-''\<rparr>"
  let ?e2 = "\<lparr>Name = ''tank'', Property = ''used'', Value = ''239'', Source = ''-''\<rparr>"
  have d1: "list_all isDigit ''1023''" "decimal ''1023'' = 1023"
    and d2: "list_all isDigit ''239''" "decimal ''239'' = 239"
    by (simp_all add: isDigit_def decimal_def digitVal_def)
  have first: "Bytes (Map.empty(''used'' \<mapsto> ?e1)) ''used'' = (1151795604700004352, True)"
    using Bytes_binary_units [where p = "Map.empty(''used'' \<mapsto> ?e1)" and property = "''used''"
        and entry = ?e1 and ds = "''1023''" and c = "CHR ''P''" and k = 5,
        THEN conjunct2, THEN conjunct1] d1
    by simp
  have second: "Bytes (Map.empty(''used'' \<mapsto> ?e2)) ''used'' = (239, True)"
    using Bytes_binary_units [where p = "Map.empty(''used'' \<mapsto> ?e2)" and property = "''used''"
        and entry = ?e2 and ds = "''239''", THEN conjunct1] d2
    by simp
  show ?thesis by (rule conjI [OF first second])
qed

text \<open>
  The claim as stated fails for large numbers. The digits \<open>9007199254740993\<close>
  (\<open>2^53 + 1\<close>) without suffix are read as a \<^verbatim>\<open>float64\<close> and give 9007199254740992,
  not the literal byte count; and \<open>16384P\<close>, which is \<open>2^64\<close> bytes, is too large for
  the \<^verbatim>\<open>uint64\<close> result and is absent.
\<close>

theorem Bytes_large_counterexample:
  "Bytes (Map.empty(''used'' \<mapsto>
      \<lparr>Name = ''tank'', Property = ''used'', Value = ''9007199254740993'', Source = ''-''\<rparr>))
     ''used''
   = (9007199254740992, True)
   \<and> Bytes (Map.empty(''used'' \<mapsto>
      \<lparr>Name = ''tank'', Property = ''used'', Value = ''16384P'', Source = ''-''\<rparr>))
     ''used''
   = (0, False)"
  by (rule conjI [OF Bytes_example_rounding Bytes_example_too_large])


end
